theory Spec2Isabelle
  imports Complex_Main
begin

section \<open>The plate pickup demo (src/examples/demo_plate_pickup.py)\<close>

text \<open>
  The script drives an external controller object (class XArmController, which is not part
  of the repository's sources) through a fixed sequence of seven steps. The model below is a
  shallow embedding of its three functions and of the closure of step 1:
  \<^item> everything the script does to the outside (printing, sleeping, reading the operator's
    Enter key, calling a method of the controller) is appended to a trace of events;
  \<^item> the outside world answers every blocking request (an \<open>input\<close> prompt or a controller
    method) through an oracle that sees the trace so far: it returns a boolean, raises
    KeyboardInterrupt, or raises another Exception;
  \<^item> Python exceptions are values of a sum type, so every handler, every early return and
    the \<open>finally\<close> block are branches of the model.

  Speeds are Python integers in the default table and floats after scaling: a float is an
  IEEE 754 binary64 value, and the product with the multiplier is the rounded product, with
  the infinities, the signed zero and NaN.
  An interrupt is modelled where the process blocks on the operator or on the controller;
  its delivery at other program points (while printing or sleeping) is outside the model.
\<close>

subsection \<open>Numbers\<close>

text \<open>
  A Python float is an IEEE 754 binary64 value: a finite number (a rational that has the
  form \<open>n * 2 ^ e\<close> with \<open>\<bar>n\<bar> < 2 ^ 53\<close> and \<open>- 1074 \<le> e\<close>, below \<open>2 ^ 1024\<close> in
  magnitude; \<open>Finite 0\<close> is the positive zero), the negative zero, an infinity or NaN.
\<close>

datatype double = Finite rat | NegZero | PosInf | NegInf | NaN

text \<open>The number of binary digits of a natural number, and from it the exponent \<open>k\<close> with
  \<open>2 ^ k \<le> a < 2 ^ (k + 1)\<close> of a positive rational.\<close>

fun bitlen :: "nat \<Rightarrow> nat" where
  "bitlen n = (if n = 0 then 0 else Suc (bitlen (n div 2)))"

definition ilog2 :: "rat \<Rightarrow> int" where
  "ilog2 a = (if 1 \<le> a then int (bitlen (nat \<lfloor>a\<rfloor>)) - 1
              else - int (bitlen (nat (\<lceil>1 / a\<rceil> - 1))))"

definition round_half_even :: "rat \<Rightarrow> int" where
  "round_half_even x =
     (let f = \<lfloor>x\<rfloor>; d = x - of_int f
      in if d < 1 / 2 then f else if 1 / 2 < d then f + 1 else if even f then f else f + 1)"

text \<open>Rounding to the nearest double, ties to even: 53 significant bits, the exponent of the
  last bit not below \<open>- 1074\<close> (the subnormal numbers), overflow to an infinity, underflow
  to a zero of the same sign.\<close>

definition round_double :: "rat \<Rightarrow> double" where
  "round_double x =
     (if x = 0 then Finite 0
      else
        let a = \<bar>x\<bar>;
            e = max (ilog2 a - 52) (- 1074);
            n = round_half_even (a / power_int 2 e);
            y = of_int n * power_int 2 e
        in if 2 ^ 1024 \<le> y then (if 0 < x then PosInf else NegInf)
           else if n = 0 then (if 0 < x then Finite 0 else NegZero)
           else Finite (if 0 < x then y else - y))"

fun is_neg :: "double \<Rightarrow> bool" where
  "is_neg (Finite x) = (x < 0)"
| "is_neg NegZero = True"
| "is_neg NegInf = True"
| "is_neg d = False"

fun is_zero :: "double \<Rightarrow> bool" where
  "is_zero (Finite x) = (x = 0)"
| "is_zero NegZero = True"
| "is_zero d = False"

fun is_inf :: "double \<Rightarrow> bool" where
  "is_inf PosInf = True"
| "is_inf NegInf = True"
| "is_inf d = False"

fun magnitude :: "double \<Rightarrow> rat" where
  "magnitude (Finite x) = x"
| "magnitude d = 0"

text \<open>The product of two floats: NaN absorbs, an infinity times a zero is NaN, the sign of
  an infinite or zero product is the product of the signs, and the product of two finite
  numbers other than zero is the exact product, rounded.\<close>

definition dmul :: "double \<Rightarrow> double \<Rightarrow> double" where
  "dmul x y =
     (if x = NaN \<or> y = NaN then NaN
      else if is_inf x \<or> is_inf y then
        (if is_zero x \<or> is_zero y then NaN
         else if is_neg x \<noteq> is_neg y then NegInf else PosInf)
      else if is_zero x \<or> is_zero y then
        (if is_neg x \<noteq> is_neg y then NegZero else Finite 0)
      else round_double (magnitude x * magnitude y))"

text \<open>What \<open>float(s)\<close> gives for a decimal numeral \<open>s\<close> (the conversion that argparse
  applies to \<open>--speed-multiplier\<close>): the double nearest to the number written.\<close>

definition float_of_decimal :: "rat \<Rightarrow> double" where
  "float_of_decimal x = round_double x"

text \<open>A speed is a Python number: an \<open>int\<close> or a \<open>float\<close>. In \<open>int * float\<close> the integer
  is converted to the nearest float first. (Python raises OverflowError for an integer
  beyond the range of the doubles, where \<open>float_of_int\<close> gives an infinity; the integers
  this script multiplies are those of its speed table, 150 at most.)\<close>

datatype val = IntV int | FloatV double

definition float_of_int :: "int \<Rightarrow> double" where
  "float_of_int n = round_double (of_int n)"

fun mul_val :: "val \<Rightarrow> double \<Rightarrow> val" where
  "mul_val (IntV n) m = FloatV (dmul (float_of_int n) m)"
| "mul_val (FloatV x) m = FloatV (dmul x m)"

subsection \<open>Speed configuration\<close>

text \<open>
  A step's speed record is a dictionary whose keys are among \<open>joint_speed\<close>, \<open>tcp_speed\<close>,
  \<open>track_speed\<close> and \<open>description\<close>; a key that is absent is \<open>None\<close>. The table from step
  name to record is an insertion-ordered dictionary, kept as an association list.
\<close>

record config =
  joint_speed :: "val option"
  tcp_speed :: "val option"
  track_speed :: "val option"
  description :: "string option"

type_synonym speed_table = "(string \<times> config) list"

definition joint_step :: "val \<Rightarrow> string \<Rightarrow> config" where
  "joint_step v d =
     \<lparr>joint_speed = Some v, tcp_speed = None, track_speed = None, description = Some d\<rparr>"

definition track_step :: "val \<Rightarrow> string \<Rightarrow> config" where
  "track_step v d =
     \<lparr>joint_speed = None, tcp_speed = None, track_speed = Some v, description = Some d\<rparr>"

definition plain_step :: "string \<Rightarrow> config" where
  "plain_step d =
     \<lparr>joint_speed = None, tcp_speed = None, track_speed = None, description = Some d\<rparr>"

text \<open>\<open>get_speed_config()\<close>, lines 74-110.\<close>

definition get_speed_config :: speed_table where
  "get_speed_config =
     [(''robot_home'', joint_step (IntV 20) ''Robot joint homing speed with gripper open''),
      (''move_to_local_1'', track_step (IntV 150) ''Linear track movement to Local_1 position''),
      (''deck_high'', joint_step (IntV 15) ''Joint movement to deck high position''),
      (''deck_low'', joint_step (IntV 8) ''Slow descent to plate pickup level''),
      (''plate_pickup'', plain_step ''Close gripper to pick up well plate''),
      (''deck_high_return'', joint_step (IntV 10) ''Slow lift to safe height with plate''),
      (''final_home'', joint_step (IntV 15) ''Return to home position with plate'')]"

text \<open>Dictionary operations: \<open>d[k] = v\<close> keeps the position of an existing key and
  appends a new one; \<open>d.update(e)\<close> stores the items of \<open>e\<close> in their order.\<close>

fun dict_set :: "('k \<times> 'v) list \<Rightarrow> 'k \<Rightarrow> 'v \<Rightarrow> ('k \<times> 'v) list" where
  "dict_set [] k v = [(k, v)]"
| "dict_set ((k', v') # d) k v =
     (if k' = k then (k, v) # d else (k', v') # dict_set d k v)"

fun dict_update :: "('k \<times> 'v) list \<Rightarrow> ('k \<times> 'v) list \<Rightarrow> ('k \<times> 'v) list" where
  "dict_update d [] = d"
| "dict_update d ((k, v) # e) = dict_update (dict_set d k v) e"

text \<open>The command line after \<open>parse_args\<close> (lines 275-283): five flags and a float.\<close>

record args =
  opt_simulate :: bool
  opt_real :: bool
  opt_auto :: bool
  opt_slow :: bool
  opt_fast :: bool
  opt_speed_multiplier :: double

datatype speed_description = Default | Slow | Fast | Custom double

text \<open>Lines 305-315: the multiplier and its description (after the conflict check).\<close>

definition resolve_multiplier :: "args \<Rightarrow> double \<times> speed_description" where
  "resolve_multiplier a =
     (if opt_slow a then (Finite (1 / 2), Slow)
      else if opt_fast a then (Finite 2, Fast)
      else if opt_speed_multiplier a \<noteq> Finite 1
        then (opt_speed_multiplier a, Custom (opt_speed_multiplier a))
      else (Finite 1, Default))"

text \<open>Lines 322-326, the body of the loop: a copy of the record with each speed that is
  present in the original replaced by its product with the multiplier, a float.\<close>

definition scale_config :: "double \<Rightarrow> config \<Rightarrow> config" where
  "scale_config m c =
     (let c1 = (case joint_speed c of
                  Some v \<Rightarrow> c\<lparr>joint_speed := Some (mul_val v m)\<rparr>
                | None \<Rightarrow> c);
          c2 = (case track_speed c of
                  Some v \<Rightarrow> c1\<lparr>track_speed := Some (mul_val v m)\<rparr>
                | None \<Rightarrow> c1)
      in c2)"

fun scale_loop :: "double \<Rightarrow> speed_table \<Rightarrow> speed_table \<Rightarrow> speed_table" where
  "scale_loop m custom [] = custom"
| "scale_loop m custom ((step, c) # rest) =
     scale_loop m (dict_set custom step (scale_config m c)) rest"

text \<open>Lines 298 and 318-326: \<open>custom_speeds\<close> stays \<open>None\<close> for the multiplier 1.0.
  (\<open>m != 1.0\<close> is true of every float other than 1.0, NaN included.)\<close>

definition custom_speeds_of :: "double \<Rightarrow> speed_table option" where
  "custom_speeds_of m =
     (if m \<noteq> Finite 1 then Some (scale_loop m [] get_speed_config) else None)"

text \<open>Lines 127-129 of \<open>demo_plate_pickup\<close>: the defaults, updated with a non-empty
  override.\<close>

definition effective_speeds :: "speed_table option \<Rightarrow> speed_table" where
  "effective_speeds custom_speeds =
     (case custom_speeds of
        None \<Rightarrow> get_speed_config
      | Some cs \<Rightarrow> if cs \<noteq> [] then dict_update get_speed_config cs else get_speed_config)"

subsection \<open>Events, the outside world and the program monad\<close>

text \<open>The operations the script requests from the outside. \<open>Input\<close> is the built-in
  \<open>input(prompt)\<close>; the others are the constructor and the methods of the controller.\<close>

datatype call =
    Input string
  | Construct "string option" bool bool
  | Initialize
  | IsComponentEnabled string
  | HasGripper
  | MoveToNamedLocation string val
  | MoveTrackToNamedLocation string val
  | OpenGripper
  | CloseGripper
  | StopMotion
  | Disconnect

text \<open>One constructor for each \<open>print\<close> of the script (a block of consecutive constant
  lines is one message), with the values it formats.\<close>

datatype message =
    Description string
  | JointSpeedLine val
  | TcpSpeedLine val
  | TrackSpeedLine val
  | MovementAborted
  | ExecutingMovement
  | MovementCompleted
  | MovementFailed
  | MovementInterrupted
  | Banner
  | ConfigJoint string val
  | ConfigTrack string val
  | ConfigDescription string string
  | Rule
  | DemoAborted
  | PositionNotFound string
  | TrackNotEnabled
  | PickupCompleted
  | SequenceInterrupted
  | SequenceFailed
  | BothModes
  | NoMode
  | BothSpeeds
  | Header bool bool speed_description
  | InitFailed
  | InitOk
  | TrackWarning
  | GripperWarning
  | DemoSuccess
  | DemoFailures
  | DemoInterrupted
  | StoppingAfterInterrupt
  | DemoFailedWithError
  | StoppingAfterError
  | Traceback
  | ControllerDisconnected

datatype event = Print message | Sleep nat | Call call

datatype outcome = Returns bool | Interrupted | Faulted

datatype exn = KeyboardInterrupt | Exception | SystemExit nat

text \<open>
  The world: the oracle answering each request from the trace so far, the controller's
  \<open>position_config\<close> attribute (a dictionary whose \<open>positions\<close> entry is given by the
  names it holds) and the truth value of the controller object.
\<close>

record world =
  answer :: "event list \<Rightarrow> call \<Rightarrow> outcome"
  position_config :: "(string \<times> string list) list"
  truthy :: bool

text \<open>The program state: the trace, and whether main's local \<open>controller\<close> is bound.\<close>

record pstate =
  trace :: "event list"
  controller_bound :: bool

type_synonym 'a prog = "pstate \<Rightarrow> (exn + 'a) \<times> pstate"

definition ret :: "'a \<Rightarrow> 'a prog" where
  "ret v st = (Inr v, st)"

definition raise :: "exn \<Rightarrow> 'a prog" where
  "raise e st = (Inl e, st)"

definition bind :: "'a prog \<Rightarrow> ('a \<Rightarrow> 'b prog) \<Rightarrow> 'b prog" where
  "bind m k st = (case m st of (Inl e, st') \<Rightarrow> (Inl e, st') | (Inr v, st') \<Rightarrow> k v st')"

definition seq :: "'a prog \<Rightarrow> 'b prog \<Rightarrow> 'b prog" where
  "seq m k = bind m (\<lambda>_. k)"

definition emit :: "event \<Rightarrow> unit prog" where
  "emit e st = (Inr (), st\<lparr>trace := trace st @ [e]\<rparr>)"

definition invoke :: "world \<Rightarrow> call \<Rightarrow> bool prog" where
  "invoke w c st =
     (let st' = st\<lparr>trace := trace st @ [Call c]\<rparr>
      in case answer w (trace st) c of
           Returns b \<Rightarrow> (Inr b, st')
         | Interrupted \<Rightarrow> (Inl KeyboardInterrupt, st')
         | Faulted \<Rightarrow> (Inl Exception, st'))"

text \<open>\<open>try: body except ...: handler\<close>; a handler re-raises what its clauses do not
  catch. \<open>try: body finally: cleanup\<close> runs the cleanup on every outcome of the body.\<close>

definition try_except :: "'a prog \<Rightarrow> (exn \<Rightarrow> 'a prog) \<Rightarrow> 'a prog" where
  "try_except body handler st =
     (case body st of (Inl e, st') \<Rightarrow> handler e st' | (Inr v, st') \<Rightarrow> (Inr v, st'))"

definition try_finally :: "'a prog \<Rightarrow> unit prog \<Rightarrow> 'a prog" where
  "try_finally body cleanup st =
     (case body st of
        (r, st') \<Rightarrow>
          (case cleanup st' of (Inl e, st'') \<Rightarrow> (Inl e, st'') | (Inr _, st'') \<Rightarrow> (r, st'')))"

text \<open>\<open>d[k]\<close> raises KeyError, an Exception, on a missing key.\<close>

definition item :: "('k \<times> 'v) list \<Rightarrow> 'k \<Rightarrow> 'v prog" where
  "item d k = (case map_of d k of Some v \<Rightarrow> ret v | None \<Rightarrow> raise Exception)"

definition field :: "'v option \<Rightarrow> 'v prog" where
  "field f = (case f of Some v \<Rightarrow> ret v | None \<Rightarrow> raise Exception)"

subsection \<open>The step runner: \<open>move_with_confirmation\<close>, lines 25-71\<close>

definition continue_prompt :: string where
  "continue_prompt = ''Press Enter to continue (Ctrl+C to abort)...''"

definition start_prompt :: string where
  "start_prompt = ''Press Enter to start the demo (Ctrl+C to abort)...''"

text \<open>A dictionary is true when it is not empty.\<close>

definition nonempty :: "config \<Rightarrow> bool" where
  "nonempty c \<longleftrightarrow>
     joint_speed c \<noteq> None \<or> tcp_speed c \<noteq> None \<or> track_speed c \<noteq> None \<or> description c \<noteq> None"

text \<open>Lines 41-47.\<close>

definition print_speed_info :: "config option \<Rightarrow> unit prog" where
  "print_speed_info speed_info =
     (case speed_info of
        None \<Rightarrow> ret ()
      | Some c \<Rightarrow>
          if nonempty c then
            seq (case joint_speed c of Some v \<Rightarrow> emit (Print (JointSpeedLine v)) | None \<Rightarrow> ret ())
           (seq (case tcp_speed c of Some v \<Rightarrow> emit (Print (TcpSpeedLine v)) | None \<Rightarrow> ret ())
                (case track_speed c of Some v \<Rightarrow> emit (Print (TrackSpeedLine v)) | None \<Rightarrow> ret ()))
          else ret ())"

text \<open>Lines 49-55: \<open>Some b\<close> is the early \<open>return b\<close>, \<open>None\<close> falls through.\<close>

definition confirm :: "world \<Rightarrow> bool \<Rightarrow> bool option prog" where
  "confirm w auto_confirm =
     (if \<not> auto_confirm then
        try_except (seq (invoke w (Input continue_prompt)) (ret None))
          (\<lambda>e. if e = KeyboardInterrupt
                then seq (emit (Print MovementAborted))
                    (seq (invoke w StopMotion) (ret (Some False)))
                else raise e)
      else ret None)"

text \<open>Lines 57-71.\<close>

definition execute :: "world \<Rightarrow> bool prog \<Rightarrow> bool prog" where
  "execute w movement_func =
     seq (emit (Print ExecutingMovement))
       (try_except
          (bind movement_func (\<lambda>success.
             if success
             then seq (emit (Print MovementCompleted)) (seq (emit (Sleep 1)) (ret True))
             else seq (emit (Print MovementFailed)) (ret False)))
          (\<lambda>e. if e = KeyboardInterrupt
                then seq (emit (Print MovementInterrupted))
                    (seq (invoke w StopMotion) (ret False))
                else raise e))"

definition move_with_confirmation ::
  "world \<Rightarrow> bool prog \<Rightarrow> string \<Rightarrow> bool \<Rightarrow> config option \<Rightarrow> bool prog" where
  "move_with_confirmation w movement_func descr auto_confirm speed_info =
     seq (emit (Print (Description descr)))
    (seq (print_speed_info speed_info)
    (bind (confirm w auto_confirm) (\<lambda>early.
       case early of
         Some b \<Rightarrow> ret b
       | None \<Rightarrow> execute w movement_func)))"

subsection \<open>The sequence: \<open>demo_plate_pickup\<close>, lines 113-271\<close>

text \<open>Early returns: \<open>or_return\<close> leaves the function with the value of an early
  \<open>return\<close>; \<open>or_return_false\<close> is \<open>if not ...: return False\<close>.\<close>

definition or_return :: "'a option prog \<Rightarrow> 'a prog \<Rightarrow> 'a prog" where
  "or_return m k = bind m (\<lambda>early. case early of Some b \<Rightarrow> ret b | None \<Rightarrow> k)"

definition or_return_false :: "bool prog \<Rightarrow> bool prog \<Rightarrow> bool prog" where
  "or_return_false m k = bind m (\<lambda>ok. if \<not> ok then ret False else k)"

text \<open>Lines 143-149: one line for each step of the table; a record with neither speed
  nor description raises KeyError.\<close>

fun print_speed_table :: "speed_table \<Rightarrow> unit prog" where
  "print_speed_table [] = ret ()"
| "print_speed_table ((step, c) # rest) =
     seq (case joint_speed c of
            Some v \<Rightarrow> emit (Print (ConfigJoint step v))
          | None \<Rightarrow>
              (case track_speed c of
                 Some v \<Rightarrow> emit (Print (ConfigTrack step v))
               | None \<Rightarrow> bind (field (description c)) (\<lambda>d. emit (Print (ConfigDescription step d)))))
         (print_speed_table rest)"

text \<open>Lines 152-158.\<close>

definition confirm_start :: "world \<Rightarrow> bool \<Rightarrow> bool option prog" where
  "confirm_start w auto_confirm =
     (if \<not> auto_confirm then
        try_except (seq (invoke w (Input start_prompt)) (ret None))
          (\<lambda>e. if e = KeyboardInterrupt
                then seq (emit (Print DemoAborted))
                    (seq (invoke w StopMotion) (ret (Some False)))
                else raise e)
      else ret None)"

text \<open>Line 161: \<open>controller.position_config.get('positions', {})\<close>.\<close>

definition positions_of :: "world \<Rightarrow> string list" where
  "positions_of w = (case map_of (position_config w) ''positions'' of Some p \<Rightarrow> p | None \<Rightarrow> [])"

definition required_positions :: "string list" where
  "required_positions = [''robot_home'', ''deck_high'', ''deck_low'']"

text \<open>Lines 168-171.\<close>

fun check_required :: "string list \<Rightarrow> string list \<Rightarrow> bool option prog" where
  "check_required positions [] = ret None"
| "check_required positions (pos_name # rest) =
     (if pos_name \<notin> set positions
      then seq (emit (Print (PositionNotFound pos_name))) (ret (Some False))
      else check_required positions rest)"

text \<open>Lines 174-176.\<close>

definition check_track :: "world \<Rightarrow> bool option prog" where
  "check_track w =
     bind (invoke w (IsComponentEnabled ''track'')) (\<lambda>enabled.
       if \<not> enabled then seq (emit (Print TrackNotEnabled)) (ret (Some False)) else ret None)"

text \<open>Lines 180-184, the closure of step 1.\<close>

definition move_home_and_open_gripper :: "world \<Rightarrow> val \<Rightarrow> bool prog" where
  "move_home_and_open_gripper w speed =
     bind (invoke w (MoveToNamedLocation ''robot_home'' speed)) (\<lambda>success.
       seq (if success then seq (invoke w OpenGripper) (ret ()) else ret ())
           (ret success))"

text \<open>The seven steps, lines 178-257: each reads its speed from the table (a missing key
  raises KeyError) and runs its action through the step runner.\<close>

definition step1 :: "world \<Rightarrow> bool \<Rightarrow> speed_table \<Rightarrow> bool prog" where
  "step1 w auto_confirm speeds =
     bind (item speeds ''robot_home'') (\<lambda>c.
     bind (field (joint_speed c)) (\<lambda>speed.
       move_with_confirmation w (move_home_and_open_gripper w speed)
         ''Step 1: Moving robot joints to home position + opening gripper''
         auto_confirm (Some c)))"

definition step2 :: "world \<Rightarrow> bool \<Rightarrow> speed_table \<Rightarrow> bool prog" where
  "step2 w auto_confirm speeds =
     bind (item speeds ''move_to_local_1'') (\<lambda>c.
     bind (field (track_speed c)) (\<lambda>speed.
       move_with_confirmation w (invoke w (MoveTrackToNamedLocation ''Local_1'' speed))
         ''Step 2: Moving linear track to Local_1 position''
         auto_confirm (Some c)))"

definition step3 :: "world \<Rightarrow> bool \<Rightarrow> speed_table \<Rightarrow> bool prog" where
  "step3 w auto_confirm speeds =
     bind (item speeds ''deck_high'') (\<lambda>c.
     bind (field (joint_speed c)) (\<lambda>speed.
       move_with_confirmation w (invoke w (MoveToNamedLocation ''deck_high'' speed))
         ''Step 3: Joint movement to deck_high position''
         auto_confirm (Some c)))"

definition step4 :: "world \<Rightarrow> bool \<Rightarrow> speed_table \<Rightarrow> bool prog" where
  "step4 w auto_confirm speeds =
     bind (item speeds ''deck_low'') (\<lambda>c.
     bind (field (joint_speed c)) (\<lambda>speed.
       move_with_confirmation w (invoke w (MoveToNamedLocation ''deck_low'' speed))
         ''Step 4: Joint movement to deck_low position (approach plate)''
         auto_confirm (Some c)))"

definition step5 :: "world \<Rightarrow> bool \<Rightarrow> speed_table \<Rightarrow> bool prog" where
  "step5 w auto_confirm speeds =
     bind (item speeds ''plate_pickup'') (\<lambda>c.
       move_with_confirmation w (invoke w CloseGripper)
         ''Step 5: Closing gripper to pick up well plate''
         auto_confirm (Some c))"

definition step6 :: "world \<Rightarrow> bool \<Rightarrow> speed_table \<Rightarrow> bool prog" where
  "step6 w auto_confirm speeds =
     bind (item speeds ''deck_high_return'') (\<lambda>c.
     bind (field (joint_speed c)) (\<lambda>speed.
       move_with_confirmation w (invoke w (MoveToNamedLocation ''deck_high'' speed))
         ''Step 6: Joint movement to deck_high position (with plate)''
         auto_confirm (Some c)))"

definition step7 :: "world \<Rightarrow> bool \<Rightarrow> speed_table \<Rightarrow> bool prog" where
  "step7 w auto_confirm speeds =
     bind (item speeds ''final_home'') (\<lambda>c.
     bind (field (joint_speed c)) (\<lambda>speed.
       move_with_confirmation w (invoke w (MoveToNamedLocation ''robot_home'' speed))
         ''Step 7: Joint movement back to robot home position (with plate)''
         auto_confirm (Some c)))"

definition run_steps :: "world \<Rightarrow> bool \<Rightarrow> speed_table \<Rightarrow> bool prog" where
  "run_steps w auto_confirm speeds =
     or_return_false (step1 w auto_confirm speeds)
    (or_return_false (step2 w auto_confirm speeds)
    (or_return_false (step3 w auto_confirm speeds)
    (or_return_false (step4 w auto_confirm speeds)
    (or_return_false (step5 w auto_confirm speeds)
    (or_return_false (step6 w auto_confirm speeds)
    (or_return_false (step7 w auto_confirm speeds)
    (seq (emit (Print PickupCompleted)) (ret True))))))))"

text \<open>Lines 160-176.\<close>

definition preflight :: "world \<Rightarrow> bool option prog" where
  "preflight w =
     bind (check_required (positions_of w) required_positions) (\<lambda>early.
       case early of Some b \<Rightarrow> ret (Some b) | None \<Rightarrow> check_track w)"

text \<open>Lines 126-262, the body of the \<open>try\<close>.\<close>

definition demo_body :: "world \<Rightarrow> bool \<Rightarrow> speed_table option \<Rightarrow> bool prog" where
  "demo_body w auto_confirm custom_speeds =
     (let speeds = effective_speeds custom_speeds
      in seq (emit (Print Banner))
        (seq (print_speed_table speeds)
        (seq (emit (Print Rule))
        (or_return (confirm_start w auto_confirm)
        (or_return (preflight w)
        (run_steps w auto_confirm speeds))))))"

text \<open>Lines 264-271: both handlers stop the motion and return False.\<close>

definition demo_plate_pickup :: "world \<Rightarrow> bool \<Rightarrow> speed_table option \<Rightarrow> bool prog" where
  "demo_plate_pickup w auto_confirm custom_speeds =
     try_except (demo_body w auto_confirm custom_speeds)
       (\<lambda>e. case e of
               KeyboardInterrupt \<Rightarrow>
                 seq (emit (Print SequenceInterrupted)) (seq (invoke w StopMotion) (ret False))
             | Exception \<Rightarrow>
                 seq (emit (Print SequenceFailed)) (seq (invoke w StopMotion) (ret False))
             | SystemExit n \<Rightarrow> raise (SystemExit n))"

subsection \<open>The top level: \<open>main\<close>, lines 274-386\<close>

text \<open>Lines 337-347: the constructor call binds the local \<open>controller\<close> when it returns.\<close>

definition construct :: "world \<Rightarrow> bool \<Rightarrow> unit prog" where
  "construct w simulate =
     seq (invoke w (if simulate then Construct None True True
                    else Construct (Some ''real_hw'') False True))
         (\<lambda>st. (Inr (), st\<lparr>controller_bound := True\<rparr>))"

text \<open>\<open>'controller' in locals()\<close>.\<close>

definition controller_in_locals :: "bool prog" where
  "controller_in_locals st = (Inr (controller_bound st), st)"

text \<open>Lines 349-369: what the \<open>try\<close> does once the controller object exists. The early
  \<open>return\<close> after a failed initialization leaves the block normally.\<close>

definition main_session :: "world \<Rightarrow> args \<Rightarrow> speed_table option \<Rightarrow> unit prog" where
  "main_session w a custom_speeds =
     bind (invoke w Initialize) (\<lambda>initialized.
       if \<not> initialized then emit (Print InitFailed)
       else
         seq (emit (Print InitOk))
        (bind (invoke w (IsComponentEnabled ''track'')) (\<lambda>enabled.
         seq (if \<not> enabled then emit (Print TrackWarning) else ret ())
        (bind (invoke w HasGripper) (\<lambda>gripper.
         seq (if \<not> gripper then emit (Print GripperWarning) else ret ())
        (bind (demo_plate_pickup w (opt_auto a) custom_speeds) (\<lambda>success.
           if success then emit (Print DemoSuccess) else emit (Print DemoFailures))))))))"

text \<open>Lines 336-369, the body of the \<open>try\<close>.\<close>

definition main_body :: "world \<Rightarrow> args \<Rightarrow> speed_table option \<Rightarrow> unit prog" where
  "main_body w a custom_speeds =
     seq (construct w (opt_simulate a)) (main_session w a custom_speeds)"

text \<open>Lines 371-382.\<close>

definition main_handler :: "world \<Rightarrow> exn \<Rightarrow> unit prog" where
  "main_handler w e =
     (case e of
        KeyboardInterrupt \<Rightarrow>
          seq (emit (Print DemoInterrupted))
            (bind controller_in_locals (\<lambda>bound.
               if bound \<and> truthy w
               then seq (emit (Print StoppingAfterInterrupt)) (seq (invoke w StopMotion) (ret ()))
               else ret ()))
      | Exception \<Rightarrow>
          seq (emit (Print DemoFailedWithError))
            (seq (bind controller_in_locals (\<lambda>bound.
                    if bound \<and> truthy w
                    then seq (emit (Print StoppingAfterError)) (seq (invoke w StopMotion) (ret ()))
                    else ret ()))
                 (emit (Print Traceback)))
      | SystemExit n \<Rightarrow> raise (SystemExit n))"

text \<open>Lines 383-386.\<close>

definition main_cleanup :: "world \<Rightarrow> unit prog" where
  "main_cleanup w =
     bind controller_in_locals (\<lambda>bound.
       if bound then seq (invoke w Disconnect) (emit (Print ControllerDisconnected))
       else ret ())"

text \<open>\<open>sys.exit(1)\<close> raises SystemExit, outside every \<open>try\<close> of the script.\<close>

definition main :: "world \<Rightarrow> args \<Rightarrow> unit prog" where
  "main w a =
     (if opt_simulate a \<and> opt_real a then seq (emit (Print BothModes)) (raise (SystemExit 1))
      else if \<not> opt_simulate a \<and> \<not> opt_real a
        then seq (emit (Print NoMode)) (raise (SystemExit 1))
      else if opt_slow a \<and> opt_fast a
        then seq (emit (Print BothSpeeds)) (raise (SystemExit 1))
      else
        (case resolve_multiplier a of
           (speed_multiplier, speed_descr) \<Rightarrow>
             seq (emit (Print (Header (opt_simulate a) (opt_auto a) speed_descr)))
               (try_finally
                  (try_except (main_body w a (custom_speeds_of speed_multiplier)) (main_handler w))
                  (main_cleanup w))))"

definition initial :: pstate where
  "initial = \<lparr>trace = [], controller_bound = False\<rparr>"

text \<open>Reading a run: its result and the events it produced.\<close>

definition result_of :: "(exn + 'a) \<times> pstate \<Rightarrow> exn + 'a" where
  "result_of r = fst r"

definition events_of :: "(exn + 'a) \<times> pstate \<Rightarrow> event list" where
  "events_of r = trace (snd r)"

subsection \<open>Observations on a run\<close>

text \<open>The requests of a trace, in order, and those among them that move the arm, the
  track or the gripper.\<close>

fun calls :: "event list \<Rightarrow> call list" where
  "calls [] = []"
| "calls (Call c # tr) = c # calls tr"
| "calls (e # tr) = calls tr"

fun is_movement :: "call \<Rightarrow> bool" where
  "is_movement (MoveToNamedLocation n s) = True"
| "is_movement (MoveTrackToNamedLocation n s) = True"
| "is_movement OpenGripper = True"
| "is_movement CloseGripper = True"
| "is_movement c = False"

definition movements :: "event list \<Rightarrow> call list" where
  "movements tr = filter is_movement (calls tr)"

fun is_construct :: "call \<Rightarrow> bool" where
  "is_construct (Construct p s e) = True"
| "is_construct c = False"

fun is_input :: "call \<Rightarrow> bool" where
  "is_input (Input p) = True"
| "is_input c = False"

definition prompts_seen :: "event list \<Rightarrow> nat" where
  "prompts_seen h = length (filter is_input (calls h))"

text \<open>The events a program adds when it is run from the state \<open>st\<close>.\<close>

definition new_events :: "pstate \<Rightarrow> (exn + 'a) \<times> pstate \<Rightarrow> event list" where
  "new_events st r = drop (length (trace st)) (trace (snd r))"

text \<open>A program that, from any state and whatever the outside answers, only appends
  events, none of them a request satisfying \<open>P\<close>, and leaves main's local \<open>controller\<close>
  alone.\<close>

definition avoids :: "(call \<Rightarrow> bool) \<Rightarrow> 'a prog \<Rightarrow> bool" where
  "avoids P m \<longleftrightarrow>
     (\<forall>st. \<exists>r new. m st = (r, st\<lparr>trace := trace st @ new\<rparr>) \<and> filter P (calls new) = [])"

fun is_disconnect :: "call \<Rightarrow> bool" where
  "is_disconnect Disconnect = True"
| "is_disconnect c = False"

text \<open>A trace that ends with the given events.\<close>

definition ends_with :: "'a list \<Rightarrow> 'a list \<Rightarrow> bool" where
  "ends_with xs ys \<longleftrightarrow> length ys \<le> length xs \<and> drop (length xs - length ys) xs = ys"

text \<open>An answer that returns normally, and the value it returns.\<close>

fun returned :: "outcome \<Rightarrow> bool" where
  "returned (Returns b) = True"
| "returned x = False"

fun returned_value :: "outcome \<Rightarrow> bool" where
  "returned_value (Returns b) = b"
| "returned_value x = False"

text \<open>What the step runner prints for a speed record (lines 41-47), and everything it
  emits before it runs the action when the operator lets it proceed.\<close>

definition speed_lines :: "config option \<Rightarrow> event list" where
  "speed_lines speed_info =
     (case speed_info of
        None \<Rightarrow> []
      | Some c \<Rightarrow>
          (case joint_speed c of Some v \<Rightarrow> [Print (JointSpeedLine v)] | None \<Rightarrow> []) @
          (case tcp_speed c of Some v \<Rightarrow> [Print (TcpSpeedLine v)] | None \<Rightarrow> []) @
          (case track_speed c of Some v \<Rightarrow> [Print (TrackSpeedLine v)] | None \<Rightarrow> []))"

definition announcement :: "string \<Rightarrow> config option \<Rightarrow> event list" where
  "announcement descr speed_info = Print (Description descr) # speed_lines speed_info"

definition runner_prelude :: "string \<Rightarrow> config option \<Rightarrow> bool \<Rightarrow> event list" where
  "runner_prelude descr speed_info auto_confirm =
     announcement descr speed_info
     @ (if auto_confirm then [] else [Call (Input continue_prompt)])
     @ [Print ExecutingMovement]"

text \<open>The command lines that pass the checks of lines 286-303, and the constructor call
  of lines 337-347.\<close>

definition valid_flags :: "args \<Rightarrow> bool" where
  "valid_flags a \<longleftrightarrow> opt_simulate a \<noteq> opt_real a \<and> \<not> (opt_slow a \<and> opt_fast a)"

definition construct_call :: "args \<Rightarrow> call" where
  "construct_call a =
     (if opt_simulate a then Construct None True True
      else Construct (Some ''real_hw'') False True)"

text \<open>The speed that a step with the default speed \<open>v\<close> has at the multiplier \<open>m\<close>: the
  integer of the table at 1.0, and otherwise the float \<open>v * m\<close>.\<close>

definition speed_of :: "double \<Rightarrow> int \<Rightarrow> val" where
  "speed_of m v = (if m \<noteq> Finite 1 then mul_val (IntV v) m else IntV v)"

text \<open>The movement requests of the seven steps at the multiplier \<open>m\<close>, step by step.\<close>

definition planned_movements :: "double \<Rightarrow> call list list" where
  "planned_movements m =
     [[MoveToNamedLocation ''robot_home'' (speed_of m 20), OpenGripper],
      [MoveTrackToNamedLocation ''Local_1'' (speed_of m 150)],
      [MoveToNamedLocation ''deck_high'' (speed_of m 15)],
      [MoveToNamedLocation ''deck_low'' (speed_of m 8)],
      [CloseGripper],
      [MoveToNamedLocation ''deck_high'' (speed_of m 10)],
      [MoveToNamedLocation ''robot_home'' (speed_of m 15)]]"

text \<open>The default table with every speed at the multiplier \<open>m\<close>.\<close>

definition scaled_table :: "double \<Rightarrow> speed_table" where
  "scaled_table m =
     [(''robot_home'', joint_step (speed_of m 20) ''Robot joint homing speed with gripper open''),
      (''move_to_local_1'', track_step (speed_of m 150) ''Linear track movement to Local_1 position''),
      (''deck_high'', joint_step (speed_of m 15) ''Joint movement to deck high position''),
      (''deck_low'', joint_step (speed_of m 8) ''Slow descent to plate pickup level''),
      (''plate_pickup'', plain_step ''Close gripper to pick up well plate''),
      (''deck_high_return'', joint_step (speed_of m 10) ''Slow lift to safe height with plate''),
      (''final_home'', joint_step (speed_of m 15) ''Return to home position with plate'')]"

definition at_most_one_speed :: "config \<Rightarrow> bool" where
  "at_most_one_speed c \<longleftrightarrow> joint_speed c = None \<or> track_speed c = None"

definition has_required_positions :: "world \<Rightarrow> bool" where
  "has_required_positions w \<longleftrightarrow>
     ''robot_home'' \<in> set (positions_of w) \<and> ''deck_high'' \<in> set (positions_of w)
     \<and> ''deck_low'' \<in> set (positions_of w)"

subsection \<open>Scenarios\<close>

text \<open>A test double on which every request returns True, with the required positions.\<close>

definition fully_succeeding :: "world \<Rightarrow> bool" where
  "fully_succeeding w \<longleftrightarrow>
     (\<forall>h c. answer w h c = Returns True) \<and> has_required_positions w"

text \<open>A controller that comes up, succeeds on steps 1 to 3 and reports failure on the move
  to \<open>deck_low\<close>; the operator, when asked, presses Enter. The requests that the run
  makes after step 4 (disconnecting) are left open.\<close>

definition fails_at_deck_low :: "world \<Rightarrow> bool" where
  "fails_at_deck_low w \<longleftrightarrow>
     (\<forall>h p s e. returned (answer w h (Construct p s e))) \<and>
     (\<forall>h. answer w h Initialize = Returns True) \<and>
     (\<forall>h. answer w h (IsComponentEnabled ''track'') = Returns True) \<and>
     (\<forall>h. returned (answer w h HasGripper)) \<and>
     (\<forall>h p. returned (answer w h (Input p))) \<and>
     has_required_positions w \<and>
     (\<forall>h s. answer w h (MoveToNamedLocation ''robot_home'' s) = Returns True) \<and>
     (\<forall>h. returned (answer w h OpenGripper)) \<and>
     (\<forall>h s. answer w h (MoveTrackToNamedLocation ''Local_1'' s) = Returns True) \<and>
     (\<forall>h s. answer w h (MoveToNamedLocation ''deck_high'' s) = Returns True) \<and>
     (\<forall>h s. answer w h (MoveToNamedLocation ''deck_low'' s) = Returns False)"

text \<open>The operator presses Enter at the first \<open>j\<close> prompts of the run and Ctrl+C at the
  next one; the controller succeeds on every request.\<close>

definition interrupts_at :: "world \<Rightarrow> nat \<Rightarrow> bool" where
  "interrupts_at w j \<longleftrightarrow>
     (\<forall>h p. answer w h (Input p) = (if prompts_seen h = j then Interrupted else Returns True)) \<and>
     (\<forall>h c. \<not> is_input c \<longrightarrow> answer w h c = Returns True) \<and>
     has_required_positions w"

text \<open>Every request succeeds, except that \<open>open_gripper\<close> may return either value.\<close>

definition succeeds_but_gripper_open :: "world \<Rightarrow> bool" where
  "succeeds_but_gripper_open w \<longleftrightarrow>
     (\<forall>h c. c \<noteq> OpenGripper \<longrightarrow> answer w h c = Returns True) \<and>
     (\<forall>h. returned (answer w h OpenGripper)) \<and> has_required_positions w"

text \<open>Every request succeeds, except that \<open>open_gripper\<close> returns False.\<close>

definition only_gripper_open_fails :: "world \<Rightarrow> bool" where
  "only_gripper_open_fails w \<longleftrightarrow>
     (\<forall>h c. answer w h c = Returns (c \<noteq> OpenGripper)) \<and> has_required_positions w"

subsection \<open>Concrete test doubles\<close>

definition deck_positions :: "(string \<times> string list) list" where
  "deck_positions = [(''positions'', [''robot_home'', ''deck_high'', ''deck_low''])]"

definition succeeding_double :: world where
  "succeeding_double =
     \<lparr>answer = (\<lambda>h c. Returns True), position_config = deck_positions, truthy = True\<rparr>"

definition faulty_constructor_double :: world where
  "faulty_constructor_double =
     \<lparr>answer = (\<lambda>h c. if is_construct c then Faulted else Returns True),
      position_config = deck_positions, truthy = True\<rparr>"

fun is_move_to :: "string \<Rightarrow> call \<Rightarrow> bool" where
  "is_move_to n (MoveToNamedLocation n' s) = (n' = n)"
| "is_move_to n c = False"

definition deck_low_double :: world where
  "deck_low_double =
     \<lparr>answer = (\<lambda>h c. Returns (\<not> is_move_to ''deck_low'' c)),
      position_config = deck_positions, truthy = True\<rparr>"

definition interrupting_double :: "nat \<Rightarrow> world" where
  "interrupting_double j =
     \<lparr>answer = (\<lambda>h c. if is_input c \<and> prompts_seen h = j then Interrupted else Returns True),
      position_config = deck_positions, truthy = True\<rparr>"

definition stuck_gripper_double :: world where
  "stuck_gripper_double =
     \<lparr>answer = (\<lambda>h c. Returns (c \<noteq> OpenGripper)), position_config = deck_positions,
      truthy = True\<rparr>"

definition no_deck_low_double :: world where
  "no_deck_low_double =
     \<lparr>answer = (\<lambda>h c. Returns True),
      position_config = [(''positions'', [''robot_home'', ''deck_high'', ''Local_1''])],
      truthy = True\<rparr>"

definition simulate_args :: args where
  "simulate_args =
     \<lparr>opt_simulate = True, opt_real = False, opt_auto = True, opt_slow = False,
      opt_fast = False, opt_speed_multiplier = Finite 1\<rparr>"

definition fast_args :: args where
  "fast_args =
     \<lparr>opt_simulate = True, opt_real = False, opt_auto = True, opt_slow = False,
      opt_fast = True, opt_speed_multiplier = Finite 1\<rparr>"

definition manual_args :: args where
  "manual_args =
     \<lparr>opt_simulate = False, opt_real = True, opt_auto = False, opt_slow = True,
      opt_fast = False, opt_speed_multiplier = Finite 1\<rparr>"

definition conflicting_args :: args where
  "conflicting_args =
     \<lparr>opt_simulate = True, opt_real = True, opt_auto = False, opt_slow = False,
      opt_fast = False, opt_speed_multiplier = Finite 1\<rparr>"

section \<open>Verification\<close>

subsection \<open>Proof tools\<close>

lemmas prog_defs = ret_def raise_def bind_def seq_def emit_def invoke_def try_except_def
  try_finally_def item_def field_def or_return_def or_return_false_def Let_def

lemmas step_defs = move_with_confirmation_def print_speed_info_def confirm_def execute_def
  nonempty_def continue_prompt_def start_prompt_def

lemmas demo_defs = confirm_start_def preflight_def required_positions_def check_track_def
  move_home_and_open_gripper_def step1_def step2_def step3_def step4_def step5_def step6_def
  step7_def run_steps_def demo_body_def demo_plate_pickup_def

lemmas main_defs = construct_def controller_in_locals_def main_session_def main_body_def
  main_handler_def main_cleanup_def

lemmas table_defs = scaled_table_def joint_step_def track_step_def plain_step_def

lemma effective_speeds_scaled: "effective_speeds (custom_speeds_of m) = scaled_table m"
  by (simp add: effective_speeds_def custom_speeds_of_def get_speed_config_def scale_config_def
      table_defs speed_of_def)

lemma calls_append: "calls (xs @ ys) = calls xs @ calls ys"
  by (induction xs rule: calls.induct) simp_all

lemma case_returned:
  "returned x \<Longrightarrow>
   (case x of Returns b \<Rightarrow> f b | Interrupted \<Rightarrow> g | Faulted \<Rightarrow> h) = f (returned_value x)"
  by (cases x) simp_all

lemma trace_update_eq:
  "(st\<lparr>trace := trace st @ xs\<rparr> = st\<lparr>trace := trace st @ ys\<rparr>) = (xs = ys)"
proof
  assume "st\<lparr>trace := trace st @ xs\<rparr> = st\<lparr>trace := trace st @ ys\<rparr>"
  then have "trace (st\<lparr>trace := trace st @ xs\<rparr>) = trace (st\<lparr>trace := trace st @ ys\<rparr>)"
    by simp
  then show "xs = ys" by simp
qed simp

lemma main_valid:
  assumes "valid_flags a" and "resolve_multiplier a = (m, d)"
  shows "main w a initial =
     try_finally (try_except (main_body w a (custom_speeds_of m)) (main_handler w)) (main_cleanup w)
       \<lparr>trace = [Print (Header (opt_simulate a) (opt_auto a) d)], controller_bound = False\<rparr>"
  using assms by (auto simp: valid_flags_def main_def initial_def seq_def bind_def emit_def)

lemma demo_fails_at_deck_low:
  assumes "fails_at_deck_low w"
  shows "\<exists>new. (\<forall>st. demo_plate_pickup w auto_confirm (custom_speeds_of m) st
                   = (Inr False, st\<lparr>trace := trace st @ new\<rparr>))
     \<and> movements new = concat (take 4 (planned_movements m))
     \<and> count_list new (Print MovementCompleted) = 3
     \<and> count_list new (Print MovementFailed) = 1
     \<and> count_list (calls new) Disconnect = 0
     \<and> count_list (calls new) StopMotion = 0
     \<and> Print DemoSuccess \<notin> set new \<and> Print DemoFailures \<notin> set new"
  using assms
  by (cases auto_confirm) (simp_all add: fails_at_deck_low_def has_required_positions_def
        effective_speeds_scaled trace_update_eq planned_movements_def
        table_defs prog_defs step_defs demo_defs case_returned movements_def)

lemma main_run:
  assumes "valid_flags a" and md: "resolve_multiplier a = (m, d)"
    and "\<forall>h. returned (answer w h (construct_call a))"
    and "\<forall>h. answer w h Initialize = Returns True"
    and "\<forall>h. returned (answer w h (IsComponentEnabled ''track''))"
    and "\<forall>h. returned (answer w h HasGripper)"
    and demo: "\<forall>st. calls (trace st)
                 = [construct_call a, Initialize, IsComponentEnabled ''track'', HasGripper]
               \<longrightarrow> demo_plate_pickup w (opt_auto a) (custom_speeds_of m) st
                     = (Inr success, st\<lparr>trace := trace st @ new\<rparr>)"
  shows "\<exists>pre post. events_of (main w a initial)
            = pre @ new @ Print (if success then DemoSuccess else DemoFailures) # Call Disconnect # post
      \<and> calls pre = [construct_call a, Initialize, IsComponentEnabled ''track'', HasGripper]
      \<and> set pre \<subseteq> {Print (Header (opt_simulate a) (opt_auto a) d), Call (construct_call a), Call Initialize, Print InitOk,
            Call (IsComponentEnabled ''track''), Print TrackWarning, Call HasGripper, Print GripperWarning}
      \<and> set post \<subseteq> {Print ControllerDisconnected}
      \<and> (result_of (main w a initial) = Inr () \<or> post = [])"
proof -
  let ?st0 = "\<lparr>trace = [Print (Header (opt_simulate a) (opt_auto a) d)], controller_bound = False\<rparr>"
  have c: "construct w (opt_simulate a) st = (Inr (), st\<lparr>trace := trace st @ [Call (construct_call a)], controller_bound := True\<rparr>)" for st
    using assms(3) by (simp add: construct_def construct_call_def prog_defs case_returned)
  have body: "\<exists>pre. main_body w a (custom_speeds_of m) ?st0 = (Inr (), \<lparr>trace = pre @ new @ [Print (if success then DemoSuccess else DemoFailures)], controller_bound = True\<rparr>)
     \<and> calls pre = [construct_call a, Initialize, IsComponentEnabled ''track'', HasGripper]
      \<and> set pre \<subseteq> {Print (Header (opt_simulate a) (opt_auto a) d), Call (construct_call a), Call Initialize, Print InitOk,
            Call (IsComponentEnabled ''track''), Print TrackWarning, Call HasGripper, Print GripperWarning}"
    using assms(4-6)
    by (simp add: main_body_def main_session_def c demo [rule_format] prog_defs case_returned)
  then obtain pre where b: "main_body w a (custom_speeds_of m) ?st0 = (Inr (), \<lparr>trace = pre @ new @ [Print (if success then DemoSuccess else DemoFailures)], controller_bound = True\<rparr>)"
   and p: "calls pre = [construct_call a, Initialize, IsComponentEnabled ''track'', HasGripper]"
      "set pre \<subseteq> {Print (Header (opt_simulate a) (opt_auto a) d), Call (construct_call a), Call Initialize, Print InitOk,
            Call (IsComponentEnabled ''track''), Print TrackWarning, Call HasGripper, Print GripperWarning}"
    by (elim exE conjE)
  have "\<exists>post. events_of (main w a initial)
            = pre @ new @ Print (if success then DemoSuccess else DemoFailures) # Call Disconnect # post \<and> set post \<subseteq> {Print ControllerDisconnected}
           \<and> (result_of (main w a initial) = Inr () \<or> post = [])"
    by (simp add: main_valid [OF assms(1) md] b events_of_def result_of_def try_finally_def try_except_def main_cleanup_def controller_in_locals_def
          bind_def seq_def invoke_def emit_def Let_def split: outcome.split)
  with p show ?thesis by blast
qed

lemma quiet_prefix:
  assumes "set pre \<subseteq> {Print (Header s c d), Call k, Call Initialize, Print InitOk,
            Call (IsComponentEnabled ''track''), Print TrackWarning, Call HasGripper, Print GripperWarning}"
  shows "count_list pre (Print MovementCompleted) = 0" "count_list pre (Print MovementFailed) = 0"
    "Print DemoSuccess \<notin> set pre" "Print DemoFailures \<notin> set pre"
    "Print PickupCompleted \<notin> set pre"
  using assms by (auto simp: count_list_0_iff)

lemma quiet_suffix:
  assumes "set post \<subseteq> {Print ControllerDisconnected}"
  shows "calls post = []" "count_list post (Print MovementCompleted) = 0"
    "count_list post (Print MovementFailed) = 0"
    "Print DemoSuccess \<notin> set post" "Print DemoFailures \<notin> set post"
    "Print PickupCompleted \<notin> set post"
proof -
  show "calls post = []" using assms by (induction post rule: calls.induct) auto
qed (use assms in \<open>auto simp: count_list_0_iff\<close>)

lemma ends_withD: "ends_with xs ys \<Longrightarrow> \<exists>before. xs = before @ ys"
  unfolding ends_with_def by (metis append_take_drop_id)

lemma demo_succeeds:
  assumes "succeeds_but_gripper_open w"
  shows "\<exists>new. (\<forall>st. demo_plate_pickup w auto_confirm (custom_speeds_of m) st
                   = (Inr True, st\<lparr>trace := trace st @ new\<rparr>))
     \<and> movements new = concat (planned_movements m)
     \<and> count_list new (Print MovementCompleted) = 7
     \<and> count_list new (Print MovementFailed) = 0
     \<and> count_list (calls new) StopMotion = 0
     \<and> count_list (calls new) Disconnect = 0
     \<and> prompts_seen new = (if auto_confirm then 0 else 8)
     \<and> Print PickupCompleted \<in> set new
     \<and> Print DemoSuccess \<notin> set new \<and> Print DemoFailures \<notin> set new"
  using assms
  by (cases auto_confirm) (simp_all add: succeeds_but_gripper_open_def has_required_positions_def
        effective_speeds_scaled trace_update_eq planned_movements_def
        table_defs prog_defs step_defs demo_defs case_returned movements_def prompts_seen_def)

lemma main_succeeds:
  assumes "valid_flags a" and "succeeds_but_gripper_open w"
  shows "let r = main w a initial in
     movements (events_of r) = concat (planned_movements (fst (resolve_multiplier a)))
     \<and> count_list (events_of r) (Print MovementCompleted) = 7
     \<and> count_list (events_of r) (Print MovementFailed) = 0
     \<and> Print PickupCompleted \<in> set (events_of r)
     \<and> Print DemoSuccess \<in> set (events_of r)
     \<and> Print DemoFailures \<notin> set (events_of r)
     \<and> count_list (calls (events_of r)) StopMotion = 0
     \<and> count_list (calls (events_of r)) Disconnect = 1
     \<and> prompts_seen (events_of r) = (if opt_auto a then 0 else 8)"
proof -
  obtain m d where md: "resolve_multiplier a = (m, d)"
    by (cases "resolve_multiplier a")
  from demo_succeeds [OF assms(2), of "opt_auto a" m]
  obtain new where
    demo: "\<And>st. demo_plate_pickup w (opt_auto a) (custom_speeds_of m) st
               = (Inr True, st\<lparr>trace := trace st @ new\<rparr>)"
    and obs: "movements new = concat (planned_movements m)"
      "count_list new (Print MovementCompleted) = 7"
      "count_list new (Print MovementFailed) = 0"
      "count_list (calls new) StopMotion = 0"
      "count_list (calls new) Disconnect = 0"
      "prompts_seen new = (if opt_auto a then 0 else 8)"
      "Print PickupCompleted \<in> set new"
      "Print DemoSuccess \<notin> set new" "Print DemoFailures \<notin> set new"
    by (elim exE conjE) simp
  have w: "\<forall>h. returned (answer w h (construct_call a))" "\<forall>h. answer w h Initialize = Returns True"
    "\<forall>h. returned (answer w h (IsComponentEnabled ''track''))" "\<forall>h. returned (answer w h HasGripper)"
    using assms(2) by (simp_all add: succeeds_but_gripper_open_def construct_call_def)
  from demo have "\<forall>st. calls (trace st)
                 = [construct_call a, Initialize, IsComponentEnabled ''track'', HasGripper]
               \<longrightarrow> demo_plate_pickup w (opt_auto a) (custom_speeds_of m) st
                     = (Inr True, st\<lparr>trace := trace st @ new\<rparr>)"
    by simp
  from main_run [OF assms(1) md w this]
  obtain pre post where
    e: "events_of (main w a initial) = pre @ new @ Print DemoSuccess # Call Disconnect # post"
    and pre: "calls pre = [construct_call a, Initialize, IsComponentEnabled ''track'', HasGripper]"
      "set pre \<subseteq> {Print (Header (opt_simulate a) (opt_auto a) d), Call (construct_call a),
         Call Initialize, Print InitOk, Call (IsComponentEnabled ''track''), Print TrackWarning,
         Call HasGripper, Print GripperWarning}"
    and post: "set post \<subseteq> {Print ControllerDisconnected}"
    by (elim exE conjE) simp


  show ?thesis
    using obs pre(1) quiet_prefix [OF pre(2)] quiet_suffix [OF post]
    by (simp add: Let_def e md movements_def calls_append construct_call_def prompts_seen_def)
qed

lemma print_speed_info_run:
  "print_speed_info si st = (Inr (), st\<lparr>trace := trace st @ speed_lines si\<rparr>)"
  by (simp add: print_speed_info_def speed_lines_def nonempty_def prog_defs
      split: option.split)

lemma confirm_interrupted:
  assumes "answer w (trace st) (Input continue_prompt) = Interrupted"
    and "returned (answer w (trace st @ [Call (Input continue_prompt), Print MovementAborted]) StopMotion)"
  shows "confirm w False st = (Inr (Some False),
           st\<lparr>trace := trace st @ [Call (Input continue_prompt), Print MovementAborted, Call StopMotion]\<rparr>)"
  using assms by (simp add: confirm_def prog_defs case_returned)

lemma runner_interrupted:
  assumes "answer w (trace st @ announcement d si) (Input continue_prompt) = Interrupted"
    and "returned (answer w (trace st @ announcement d si @ [Call (Input continue_prompt), Print MovementAborted]) StopMotion)"
  shows "move_with_confirmation w movement_func d False si st =
           (Inr False, st\<lparr>trace := trace st @ announcement d si
               @ [Call (Input continue_prompt), Print MovementAborted, Call StopMotion]\<rparr>)"
  using assms
  by (simp add: move_with_confirmation_def print_speed_info_run announcement_def
      confirm_interrupted prog_defs)

lemma fully_succeeding_gripper: "fully_succeeding w \<Longrightarrow> succeeds_but_gripper_open w"
  by (simp add: fully_succeeding_def succeeds_but_gripper_open_def)

lemma only_gripper_open_fails_gripper:
  "only_gripper_open_fails w \<Longrightarrow> succeeds_but_gripper_open w"
  by (simp add: only_gripper_open_fails_def succeeds_but_gripper_open_def)

lemma new_events_extend [simp]: "new_events st (r, st\<lparr>trace := trace st @ new\<rparr>) = new"
  by (simp add: new_events_def)

lemma action_step1:
  "let r = move_home_and_open_gripper w speed st;
       moved = answer w (trace st) (MoveToNamedLocation ''robot_home'' speed);
       opened = answer w (trace st @ [Call (MoveToNamedLocation ''robot_home'' speed)]) OpenGripper
   in (OpenGripper \<in> set (calls (new_events st r)) \<longleftrightarrow> moved = Returns True)
      \<and> (returned moved \<and> returned opened \<longrightarrow> result_of r = Inr (returned_value moved))"
  by (cases "answer w (trace st) (MoveToNamedLocation ''robot_home'' speed)";
      cases "answer w (trace st @ [Call (MoveToNamedLocation ''robot_home'' speed)]) OpenGripper")
     (auto simp: move_home_and_open_gripper_def prog_defs new_events_def result_of_def)

lemma demo_interrupted_at:
  assumes "interrupts_at w j" and "j \<le> 7"
  shows "let new = events_of (demo_plate_pickup w False (custom_speeds_of m) initial) in
     (\<forall>st. prompts_seen (trace st) = 0 \<longrightarrow>
                 demo_plate_pickup w False (custom_speeds_of m) st
                   = (Inr False, st\<lparr>trace := trace st @ new\<rparr>))
     \<and> movements new = concat (take (j - 1) (planned_movements m))
     \<and> count_list (calls new) StopMotion = 1
     \<and> count_list (calls new) Disconnect = 0
     \<and> prompts_seen new = j + 1
     \<and> (ends_with new [Call (Input start_prompt), Print DemoAborted, Call StopMotion]
         \<or> ends_with new [Call (Input continue_prompt), Print MovementAborted, Call StopMotion])
     \<and> Print DemoSuccess \<notin> set new \<and> Print DemoFailures \<notin> set new"
proof -
  have "j = 0 \<or> j = 1 \<or> j = 2 \<or> j = 3 \<or> j = 4 \<or> j = 5 \<or> j = 6 \<or> j = 7"
    using assms(2) by arith
  then show ?thesis
    using assms(1)
    by (elim disjE)
       (simp_all add: interrupts_at_def has_required_positions_def initial_def events_of_def
        effective_speeds_scaled trace_update_eq planned_movements_def calls_append
        table_defs prog_defs step_defs demo_defs movements_def prompts_seen_def ends_with_def)
qed

lemma main_interrupted_at:
  assumes v: "valid_flags a" and na: "\<not> opt_auto a" and i: "interrupts_at w j" and j: "j \<le> 7"
  shows "let r = main w a initial in
          count_list (calls (events_of r)) StopMotion = 1
        \<and> movements (events_of r)
            = concat (take (j - 1) (planned_movements (fst (resolve_multiplier a))))
        \<and> prompts_seen (events_of r) = j + 1
        \<and> (\<exists>before p msg post. events_of r
              = before @ [Call (Input p), Print msg, Call StopMotion, Print DemoFailures,
                          Call Disconnect] @ post
              \<and> calls post = [])
        \<and> Print DemoSuccess \<notin> set (events_of r)"
proof -
  obtain m d where md: "resolve_multiplier a = (m, d)"
    by (cases "resolve_multiplier a")
  define new where "new = events_of (demo_plate_pickup w False (custom_speeds_of m) initial)"
  from demo_interrupted_at [OF i j, of m]
  have demo0: "\<And>st. prompts_seen (trace st) = 0 \<Longrightarrow>
                 demo_plate_pickup w False (custom_speeds_of m) st
                   = (Inr False, st\<lparr>trace := trace st @ new\<rparr>)"
    and obs: "movements new = concat (take (j - 1) (planned_movements m))"
      "count_list (calls new) StopMotion = 1"
      "count_list (calls new) Disconnect = 0"
      "prompts_seen new = j + 1"
      "Print DemoSuccess \<notin> set new" "Print DemoFailures \<notin> set new"
    and ends: "ends_with new [Call (Input start_prompt), Print DemoAborted, Call StopMotion]
         \<or> ends_with new [Call (Input continue_prompt), Print MovementAborted, Call StopMotion]"
    unfolding new_def Let_def by blast+
  have demo: "\<forall>st. calls (trace st)
                 = [construct_call a, Initialize, IsComponentEnabled ''track'', HasGripper]
               \<longrightarrow> demo_plate_pickup w (opt_auto a) (custom_speeds_of m) st
                     = (Inr False, st\<lparr>trace := trace st @ new\<rparr>)"
    using demo0 na by (simp add: prompts_seen_def construct_call_def)
  have w: "\<forall>h. returned (answer w h (construct_call a))"
    "\<forall>h. answer w h Initialize = Returns True"
    "\<forall>h. returned (answer w h (IsComponentEnabled ''track''))"
    "\<forall>h. returned (answer w h HasGripper)"
    using i by (simp_all add: interrupts_at_def construct_call_def)
  from main_run [OF v md w demo]
  obtain pre post where
    e: "events_of (main w a initial) = pre @ new @ Print DemoFailures # Call Disconnect # post"
    and pre: "calls pre = [construct_call a, Initialize, IsComponentEnabled ''track'', HasGripper]"
      "set pre \<subseteq> {Print (Header (opt_simulate a) (opt_auto a) d), Call (construct_call a),
         Call Initialize, Print InitOk, Call (IsComponentEnabled ''track''), Print TrackWarning,
         Call HasGripper, Print GripperWarning}"
    and post: "set post \<subseteq> {Print ControllerDisconnected}"
    by (elim exE conjE) simp
  from ends obtain before p msg where n: "new = before @ [Call (Input p), Print msg, Call StopMotion]"
    by (auto dest!: ends_withD)
  have ex: "\<exists>before p msg post. events_of (main w a initial)
              = before @ [Call (Input p), Print msg, Call StopMotion, Print DemoFailures,
                          Call Disconnect] @ post
              \<and> calls post = []"
  proof (intro exI conjI)
    show "events_of (main w a initial) = (pre @ before) @ [Call (Input p), Print msg, Call StopMotion, Print DemoFailures,
                          Call Disconnect] @ post"
      by (simp add: e n)
    show "calls post = []" by (rule quiet_suffix(1) [OF post])
  qed
  show ?thesis
    using obs pre(1) quiet_prefix [OF pre(2)] quiet_suffix [OF post] ex
    by (simp add: Let_def md movements_def calls_append construct_call_def prompts_seen_def e)
qed

subsection \<open>Programs that avoid a request\<close>

lemma avoidsI:
  assumes "\<And>st. \<exists>r new. m st = (r, st\<lparr>trace := trace st @ new\<rparr>) \<and> filter P (calls new) = []"
  shows "avoids P m"
  using assms by (simp add: avoids_def)

lemma avoidsE:
  assumes "avoids P m"
  obtains r new where "m st = (r, st\<lparr>trace := trace st @ new\<rparr>)" and "filter P (calls new) = []"
  using assms unfolding avoids_def by blast

lemma avoids_ret: "avoids P (ret v)"
  by (rule avoidsI) (simp add: ret_def, rule exI [of _ "[]"], simp)

lemma avoids_raise: "avoids P (raise e)"
  by (rule avoidsI) (simp add: raise_def, rule exI [of _ "[]"], simp)

lemma avoids_controller_in_locals: "avoids P controller_in_locals"
  by (rule avoidsI) (simp add: controller_in_locals_def, rule exI [of _ "[]"], simp)

lemma avoids_print: "avoids P (emit (Print msg))"
  by (rule avoidsI) (simp add: emit_def, rule exI [of _ "[Print msg]"], simp)

lemma avoids_sleep: "avoids P (emit (Sleep n))"
  by (rule avoidsI) (simp add: emit_def, rule exI [of _ "[Sleep n]"], simp)

lemma avoids_invoke:
  assumes "\<not> P c"
  shows "avoids P (invoke w c)"
proof (rule avoidsI)
  fix st
  have "invoke w c st = (fst (invoke w c st), st\<lparr>trace := trace st @ [Call c]\<rparr>)"
    by (simp add: invoke_def Let_def split: outcome.split)
  moreover have "filter P (calls [Call c]) = []"
    using assms by simp
  ultimately show "\<exists>r new. invoke w c st = (r, st\<lparr>trace := trace st @ new\<rparr>)
      \<and> filter P (calls new) = []"
    by blast
qed

lemma avoids_bind:
  assumes "avoids P m" and "\<And>v. avoids P (k v)"
  shows "avoids P (bind m k)"
proof (rule avoidsI)
  fix st
  from assms(1) obtain r new where m: "m st = (r, st\<lparr>trace := trace st @ new\<rparr>)"
    and n: "filter P (calls new) = []"
    by (rule avoidsE)
  show "\<exists>r new. bind m k st = (r, st\<lparr>trace := trace st @ new\<rparr>) \<and> filter P (calls new) = []"
  proof (cases r)
    case (Inl e)
    with m n show ?thesis by (auto simp: bind_def)
  next
    case (Inr v)
    from assms(2) [of v] obtain r' new' where
      k: "k v (st\<lparr>trace := trace st @ new\<rparr>) = (r', st\<lparr>trace := trace st @ new\<rparr>\<lparr>trace := trace (st\<lparr>trace := trace st @ new\<rparr>) @ new'\<rparr>)"
      and n': "filter P (calls new') = []"
      by (rule avoidsE)
    have "bind m k st = (r', st\<lparr>trace := trace st @ (new @ new')\<rparr>)"
      using m Inr k by (simp add: bind_def)
    moreover have "filter P (calls (new @ new')) = []"
      using n n' by (simp add: calls_append)
    ultimately show ?thesis by blast
  qed
qed

lemma avoids_seq: "avoids P m \<Longrightarrow> avoids P k \<Longrightarrow> avoids P (seq m k)"
  unfolding seq_def by (rule avoids_bind)

lemma avoids_try_except:
  assumes "avoids P m" and "\<And>e. avoids P (h e)"
  shows "avoids P (try_except m h)"
proof (rule avoidsI)
  fix st
  from assms(1) obtain r new where m: "m st = (r, st\<lparr>trace := trace st @ new\<rparr>)"
    and n: "filter P (calls new) = []"
    by (rule avoidsE)
  show "\<exists>r new. try_except m h st = (r, st\<lparr>trace := trace st @ new\<rparr>) \<and> filter P (calls new) = []"
  proof (cases r)
    case (Inr v)
    with m n show ?thesis by (auto simp: try_except_def)
  next
    case (Inl e)
    from assms(2) [of e] obtain r' new' where
      k: "h e (st\<lparr>trace := trace st @ new\<rparr>) = (r', st\<lparr>trace := trace st @ new\<rparr>\<lparr>trace := trace (st\<lparr>trace := trace st @ new\<rparr>) @ new'\<rparr>)"
      and n': "filter P (calls new') = []"
      by (rule avoidsE)
    have "try_except m h st = (r', st\<lparr>trace := trace st @ (new @ new')\<rparr>)"
      using m Inl k by (simp add: try_except_def)
    moreover have "filter P (calls (new @ new')) = []"
      using n n' by (simp add: calls_append)
    ultimately show ?thesis by blast
  qed
qed

lemma avoids_item: "avoids P (item d k)"
  by (simp add: item_def avoids_ret avoids_raise split: option.split)

lemma avoids_field: "avoids P (field f)"
  by (simp add: field_def avoids_ret avoids_raise split: option.split)

lemma avoids_or_return: "avoids P m \<Longrightarrow> avoids P k \<Longrightarrow> avoids P (or_return m k)"
  unfolding or_return_def
  by (rule avoids_bind) (simp_all add: avoids_ret split: option.split)

lemma avoids_or_return_false: "avoids P m \<Longrightarrow> avoids P k \<Longrightarrow> avoids P (or_return_false m k)"
  unfolding or_return_false_def
  by (rule avoids_bind) (simp_all add: avoids_ret)

lemmas avoids_intros = avoids_ret avoids_raise avoids_controller_in_locals avoids_print
  avoids_sleep avoids_invoke avoids_bind avoids_seq avoids_try_except avoids_item avoids_field
  avoids_or_return avoids_or_return_false

lemma avoids_print_speed_table: "avoids P (print_speed_table t)"
  by (induction t rule: print_speed_table.induct)
     (auto intro!: avoids_intros split: option.split)

lemma avoids_check_required: "avoids P (check_required ps rs)"
  by (induction rs) (auto intro!: avoids_intros)

lemma avoids_print_speed_info: "avoids P (print_speed_info si)"
  unfolding print_speed_info_def
  by (auto intro!: avoids_intros split: option.split)

lemma avoids_move_with_confirmation:
  assumes "\<not> P StopMotion" and "\<not> P (Input continue_prompt)" and "avoids P f"
  shows "avoids P (move_with_confirmation w f d auto_confirm si)"
  unfolding move_with_confirmation_def confirm_def execute_def
  using assms
  by (auto intro!: avoids_intros avoids_print_speed_info split: option.split)

lemma avoids_disconnect_demo:
  "avoids is_disconnect (demo_plate_pickup w auto_confirm cs)"
  unfolding demo_plate_pickup_def demo_body_def Let_def confirm_start_def preflight_def
    check_track_def run_steps_def step1_def step2_def step3_def step4_def step5_def step6_def
    step7_def move_home_and_open_gripper_def
  by (auto intro!: avoids_intros avoids_print_speed_table avoids_check_required
      avoids_move_with_confirmation
      simp: continue_prompt_def split: option.split exn.split)

subsection \<open>The preflight checks and the cleanup\<close>

lemma preflight_missing:
  assumes "\<not> has_required_positions w"
  shows "\<exists>p. p \<in> set required_positions \<and> p \<notin> set (positions_of w)
     \<and> (\<forall>st. preflight w st
            = (Inr (Some False), st\<lparr>trace := trace st @ [Print (PositionNotFound p)]\<rparr>))"
  using assms
  by (auto simp: has_required_positions_def preflight_def required_positions_def prog_defs)

lemma preflight_passes:
  assumes "preflight w st = (Inr None, st')"
  shows "has_required_positions w
     \<and> answer w (trace st) (IsComponentEnabled ''track'') = Returns True
     \<and> st' = st\<lparr>trace := trace st @ [Call (IsComponentEnabled ''track'')]\<rparr>"
proof (cases "has_required_positions w")
  case False
  from preflight_missing [OF this] assms show ?thesis by auto
next
  case True
  then show ?thesis
    using assms
    by (auto simp: has_required_positions_def preflight_def required_positions_def
        check_track_def prog_defs split: outcome.splits if_splits)
qed

lemma avoids_preflight_missing:
  assumes "\<not> has_required_positions w"
  shows "avoids P (or_return (preflight w) k)"
proof (rule avoidsI)
  fix st
  from preflight_missing [OF assms] obtain p where
    "preflight w st = (Inr (Some False), st\<lparr>trace := trace st @ [Print (PositionNotFound p)]\<rparr>)"
    by blast
  then have "or_return (preflight w) k st
      = (Inr False, st\<lparr>trace := trace st @ [Print (PositionNotFound p)]\<rparr>)"
    by (simp add: or_return_def bind_def ret_def)
  moreover have "filter P (calls [Print (PositionNotFound p)]) = []"
    by simp
  ultimately show "\<exists>r new. or_return (preflight w) k st = (r, st\<lparr>trace := trace st @ new\<rparr>)
      \<and> filter P (calls new) = []"
    by blast
qed

lemma avoids_confirm_start:
  assumes "\<not> P StopMotion" and "\<not> P (Input start_prompt)"
  shows "avoids P (confirm_start w auto_confirm)"
  unfolding confirm_start_def using assms by (auto intro!: avoids_intros)

lemma demo_missing_no_movement:
  assumes "\<not> has_required_positions w"
  shows "movements (new_events st (demo_plate_pickup w auto_confirm cs st)) = []"
proof -
  have body: "avoids is_movement (demo_body w auto_confirm cs)"
    unfolding demo_body_def Let_def
    by (intro avoids_seq avoids_print avoids_print_speed_table avoids_or_return
        avoids_confirm_start avoids_preflight_missing [OF assms]) simp_all
  have "avoids is_movement (demo_plate_pickup w auto_confirm cs)"
    unfolding demo_plate_pickup_def
    by (rule avoids_try_except [OF body]) (auto intro!: avoids_intros split: exn.split)
  then obtain r new where
    "demo_plate_pickup w auto_confirm cs st = (r, st\<lparr>trace := trace st @ new\<rparr>)"
    and "filter is_movement (calls new) = []"
    by (rule avoidsE)
  then show ?thesis by (simp add: movements_def)
qed

lemma demo_missing_acknowledged:
  assumes "\<not> has_required_positions w"
    and "auto_confirm \<or> (\<forall>h. returned (answer w h (Input start_prompt)))"
  shows "\<exists>p. p \<in> set required_positions \<and> p \<notin> set (positions_of w)
     \<and> (let r = demo_plate_pickup w auto_confirm (custom_speeds_of m) st in
         result_of r = Inr False
       \<and> calls (new_events st r) = (if auto_confirm then [] else [Input start_prompt])
       \<and> last (new_events st r) = Print (PositionNotFound p))"
proof -
  from preflight_missing [OF assms(1)] obtain p where
    p: "p \<in> set required_positions" "p \<notin> set (positions_of w)"
    and pf: "\<And>st. preflight w st
            = (Inr (Some False), st\<lparr>trace := trace st @ [Print (PositionNotFound p)]\<rparr>)"
    by blast
  have "let r = demo_plate_pickup w auto_confirm (custom_speeds_of m) st in
         result_of r = Inr False
       \<and> calls (new_events st r) = (if auto_confirm then [] else [Input start_prompt])
       \<and> last (new_events st r) = Print (PositionNotFound p)"
    using assms(2)
    by (cases auto_confirm)
       (simp_all add: demo_plate_pickup_def demo_body_def confirm_start_def pf
        effective_speeds_scaled table_defs prog_defs
        result_of_def calls_append case_returned)
  with p show ?thesis by blast
qed

lemma avoids_disconnect_session:
  "avoids is_disconnect (main_session w a cs)"
  unfolding main_session_def
  by (auto intro!: avoids_intros avoids_disconnect_demo)

lemma avoids_disconnect_handler:
  "avoids is_disconnect (main_handler w e)"
  unfolding main_handler_def
  by (auto intro!: avoids_intros split: exn.split)

lemma no_disconnect_count:
  "filter is_disconnect cs = [] \<Longrightarrow> count_list cs Disconnect = 0"
  by (induction cs) (auto split: if_splits)

lemma main_disconnect:
  assumes v: "valid_flags a" and md: "resolve_multiplier a = (m, d)"
  shows "let r = main w a initial in
      (controller_bound (snd r) \<longleftrightarrow>
         returned (answer w [Print (Header (opt_simulate a) (opt_auto a) d)] (construct_call a)))
    \<and> count_list (calls (events_of r)) Disconnect = (if controller_bound (snd r) then 1 else 0)
    \<and> (controller_bound (snd r) \<longrightarrow> last (calls (events_of r)) = Disconnect)"
proof -
  let ?h = "[Print (Header (opt_simulate a) (opt_auto a) d)]"
  let ?st0 = "\<lparr>trace = ?h, controller_bound = False\<rparr>"
  let ?st1 = "\<lparr>trace = ?h @ [Call (construct_call a)], controller_bound = True\<rparr>"
  note mv = main_valid [OF v md, of w]
  show ?thesis
  proof (cases "returned (answer w ?h (construct_call a))")
    case True
    then have c: "construct w (opt_simulate a) ?st0 = (Inr (), ?st1)"
      by (simp add: construct_def construct_call_def prog_defs case_returned)
    have "avoids is_disconnect (try_except (main_session w a (custom_speeds_of m)) (main_handler w))"
      by (rule avoids_try_except [OF avoids_disconnect_session avoids_disconnect_handler])
    then obtain r new where
      s: "try_except (main_session w a (custom_speeds_of m)) (main_handler w) ?st1
            = (r, ?st1\<lparr>trace := trace ?st1 @ new\<rparr>)"
      and n: "filter is_disconnect (calls new) = []"
      by (rule avoidsE)
    have b: "try_except (main_body w a (custom_speeds_of m)) (main_handler w) ?st0
            = (r, \<lparr>trace = ?h @ [Call (construct_call a)] @ new, controller_bound = True\<rparr>)"
      using s c by (simp add: try_except_def main_body_def seq_def bind_def)
    have "\<exists>r' post. main w a initial
        = (r', \<lparr>trace = ?h @ [Call (construct_call a)] @ new @ Call Disconnect # post,
               controller_bound = True\<rparr>) \<and> calls post = []"
      by (simp add: mv b try_finally_def main_cleanup_def controller_in_locals_def bind_def
          seq_def invoke_def emit_def ret_def Let_def split: outcome.split)
    then obtain r' post where
      e: "main w a initial
        = (r', \<lparr>trace = ?h @ [Call (construct_call a)] @ new @ Call Disconnect # post,
               controller_bound = True\<rparr>)"
      and p: "calls post = []"
      by blast
    show ?thesis
      using True no_disconnect_count [OF n] p
      by (simp add: Let_def e events_of_def calls_append construct_call_def)
  next
    case False
    then have "answer w ?h (construct_call a) = Interrupted \<or> answer w ?h (construct_call a) = Faulted"
      by (cases "answer w ?h (construct_call a)") simp_all
    then show ?thesis
      using False
      by (elim disjE)
         (simp_all add: Let_def mv main_body_def construct_def construct_call_def
            main_handler_def main_cleanup_def controller_in_locals_def events_of_def prog_defs)
  qed
qed

subsection \<open>Claim C1: what the preflight validation checks\<close>

text \<open>
  C1, as the code has it. The preflight validation looks up \<open>robot_home\<close>, \<open>deck_high\<close>
  and \<open>deck_low\<close> in the position table: when one of them is absent it prints the error
  and returns False without any request; it lets the sequence proceed only when all three
  are present and the track is reported enabled; and a run that requests a movement has
  all three in the table. The track destination \<open>Local_1\<close> is not looked up: the source
  leaves it to the movement function (comment at line 173).
\<close>

theorem preflight_checks_the_three_arm_positions:
  "(\<not> has_required_positions w \<longrightarrow>
      (\<exists>p. p \<in> set required_positions \<and> p \<notin> set (positions_of w)
         \<and> preflight w st
             = (Inr (Some False), st\<lparr>trace := trace st @ [Print (PositionNotFound p)]\<rparr>)))
   \<and> (\<forall>st'. preflight w st = (Inr None, st') \<longrightarrow>
         has_required_positions w
       \<and> answer w (trace st) (IsComponentEnabled ''track'') = Returns True
       \<and> st' = st\<lparr>trace := trace st @ [Call (IsComponentEnabled ''track'')]\<rparr>)
   \<and> (movements (new_events st (demo_plate_pickup w auto_confirm cs st)) \<noteq> []
        \<longrightarrow> has_required_positions w)"
  using preflight_missing [of w] preflight_passes [of w st] demo_missing_no_movement [of w st auto_confirm cs]
  by blast

theorem preflight_checks_the_three_arm_positions_witness:
  "\<not> has_required_positions no_deck_low_double
   \<and> preflight no_deck_low_double initial
       = (Inr (Some False),
          initial\<lparr>trace := trace initial @ [Print (PositionNotFound ''deck_low'')]\<rparr>)
   \<and> preflight succeeding_double initial
       = (Inr None, initial\<lparr>trace := trace initial @ [Call (IsComponentEnabled ''track'')]\<rparr>)
   \<and> has_required_positions succeeding_double
   \<and> movements (new_events initial
         (demo_plate_pickup succeeding_double True (custom_speeds_of (Finite 1)) initial)) \<noteq> []"
proof -
  have h: "\<not> has_required_positions no_deck_low_double"
    by (simp add: has_required_positions_def no_deck_low_double_def positions_of_def)
  have only: "p = ''deck_low''"
    if "p \<in> set required_positions" and "p \<notin> set (positions_of no_deck_low_double)" for p
    using that by (auto simp: required_positions_def no_deck_low_double_def positions_of_def)
  have pass: "preflight succeeding_double initial
       = (Inr None, initial\<lparr>trace := trace initial @ [Call (IsComponentEnabled ''track'')]\<rparr>)"
    by (simp add: preflight_def required_positions_def check_track_def succeeding_double_def
        positions_of_def deck_positions_def prog_defs)
  from preflight_checks_the_three_arm_positions [of no_deck_low_double initial True None]
    h only
  have "preflight no_deck_low_double initial
       = (Inr (Some False),
          initial\<lparr>trace := trace initial @ [Print (PositionNotFound ''deck_low'')]\<rparr>)"
    by auto
  moreover from preflight_checks_the_three_arm_positions
    [of succeeding_double initial True None] pass
  have "has_required_positions succeeding_double"
    by blast
  moreover have "movements (new_events initial
         (demo_plate_pickup succeeding_double True (custom_speeds_of (Finite 1)) initial)) \<noteq> []"
    by (simp add: succeeding_double_def positions_of_def deck_positions_def initial_def
        effective_speeds_scaled table_defs prog_defs step_defs demo_defs movements_def
        new_events_def)
  ultimately show ?thesis using h pass by simp
qed

text \<open>
  The claim as stated fails: on a table that holds the three arm positions and no
  \<open>Local_1\<close>, the preflight passes and the run issues all its movements, the track move
  to \<open>Local_1\<close> among them.
\<close>

theorem preflight_does_not_check_local_1:
  "''Local_1'' \<notin> set (positions_of succeeding_double)
   \<and> result_of (demo_plate_pickup succeeding_double True (custom_speeds_of (Finite 1)) initial) = Inr True
   \<and> movements (events_of (demo_plate_pickup succeeding_double True (custom_speeds_of (Finite 1)) initial))
       = concat (planned_movements (Finite 1))"
  by (simp add: succeeding_double_def positions_of_def deck_positions_def initial_def
      effective_speeds_scaled table_defs prog_defs step_defs demo_defs movements_def
      planned_movements_def events_of_def result_of_def)

subsection \<open>Claim C2: disconnecting on exit\<close>

text \<open>
  C2, as the code has it. At exit main's local \<open>controller\<close> is bound exactly when the
  flags were accepted and the constructor returned. In that case, whatever happens
  afterwards (normal completion, a failed initialization, a failed or interrupted
  sequence, a fault raised by any controller method, a fault inside a handler),
  \<open>disconnect\<close> is requested exactly once and it is the last request of the run. When the
  constructor raises, or the flags are rejected, there is no controller object and
  \<open>disconnect\<close> is not requested (the guard of line 384).
\<close>

theorem disconnect_once_iff_constructed:
  "let r = main w a initial in
      (controller_bound (snd r) \<longleftrightarrow>
         valid_flags a \<and>
         returned (answer w [Print (Header (opt_simulate a) (opt_auto a) (snd (resolve_multiplier a)))]
                    (construct_call a)))
    \<and> count_list (calls (events_of r)) Disconnect = (if controller_bound (snd r) then 1 else 0)
    \<and> (controller_bound (snd r) \<longrightarrow> last (calls (events_of r)) = Disconnect)"
proof (cases "valid_flags a")
  case True
  obtain m d where md: "resolve_multiplier a = (m, d)"
    by (cases "resolve_multiplier a")
  from main_disconnect [OF True md, of w] True md show ?thesis
    by (simp add: Let_def)
next
  case False
  then have "(opt_simulate a \<and> opt_real a) \<or> (\<not> opt_simulate a \<and> \<not> opt_real a)
      \<or> (opt_slow a \<and> opt_fast a)"
    by (auto simp: valid_flags_def)
  then have "calls (events_of (main w a initial)) = [] \<and> \<not> controller_bound (snd (main w a initial))"
    by (auto simp: main_def initial_def events_of_def prog_defs)
  with False show ?thesis by (simp add: Let_def)
qed

theorem disconnect_once_iff_constructed_witness:
  "valid_flags simulate_args
   \<and> controller_bound (snd (main succeeding_double simulate_args initial))
   \<and> count_list (calls (events_of (main succeeding_double simulate_args initial))) Disconnect = 1
   \<and> last (calls (events_of (main succeeding_double simulate_args initial))) = Disconnect"
proof -
  have h: "valid_flags simulate_args"
    "returned (answer succeeding_double
       [Print (Header (opt_simulate simulate_args) (opt_auto simulate_args)
                 (snd (resolve_multiplier simulate_args)))]
       (construct_call simulate_args))"
    by (simp_all add: valid_flags_def simulate_args_def succeeding_double_def)
  from disconnect_once_iff_constructed [of succeeding_double simulate_args] h
  show ?thesis by (simp add: Let_def)
qed

text \<open>
  The claim as stated fails on the path it names last: when the constructor raises, the
  constructor call is the only request of the run and \<open>disconnect\<close> is never requested.
\<close>

theorem constructor_fault_skips_disconnect:
  "calls (events_of (main faulty_constructor_double simulate_args initial))
      = [Construct None True True]
   \<and> count_list (calls (events_of (main faulty_constructor_double simulate_args initial)))
        Disconnect = 0
   \<and> result_of (main faulty_constructor_double simulate_args initial) = Inr ()"
  by (simp add: main_def simulate_args_def faulty_constructor_double_def initial_def
      resolve_multiplier_def main_body_def construct_def main_handler_def main_cleanup_def
      controller_in_locals_def events_of_def result_of_def prog_defs)

subsection \<open>Claim C3: failure at step 4\<close>

text \<open>
  C3. When the controller comes up, succeeds on steps 1 to 3 and reports failure on the
  move to \<open>deck_low\<close>, the run issues the movements of steps 1 to 4 once each and in order
  and none of steps 5 to 7, the runner reports three completed movements and one failed
  movement, the program reports failure, \<open>disconnect\<close> is requested exactly once and
  \<open>stop_motion\<close> never.
\<close>

theorem deck_low_failure_stops_the_run:
  assumes "valid_flags a" and "fails_at_deck_low w"
  shows "let r = main w a initial; m = fst (resolve_multiplier a) in
     movements (events_of r) =
       [MoveToNamedLocation ''robot_home'' (speed_of m 20), OpenGripper,
        MoveTrackToNamedLocation ''Local_1'' (speed_of m 150),
        MoveToNamedLocation ''deck_high'' (speed_of m 15),
        MoveToNamedLocation ''deck_low'' (speed_of m 8)]
     \<and> count_list (events_of r) (Print MovementCompleted) = 3
     \<and> count_list (events_of r) (Print MovementFailed) = 1
     \<and> Print DemoFailures \<in> set (events_of r)
     \<and> Print DemoSuccess \<notin> set (events_of r)
     \<and> count_list (calls (events_of r)) Disconnect = 1
     \<and> count_list (calls (events_of r)) StopMotion = 0"
proof -
  obtain m d where md: "resolve_multiplier a = (m, d)"
    by (cases "resolve_multiplier a")
  from demo_fails_at_deck_low [OF assms(2), of "opt_auto a" m]
  obtain new where
    demo: "\<And>st. demo_plate_pickup w (opt_auto a) (custom_speeds_of m) st
               = (Inr False, st\<lparr>trace := trace st @ new\<rparr>)"
    and obs: "movements new = concat (take 4 (planned_movements m))"
      "count_list new (Print MovementCompleted) = 3"
      "count_list new (Print MovementFailed) = 1"
      "count_list (calls new) Disconnect = 0"
      "count_list (calls new) StopMotion = 0"
      "Print DemoSuccess \<notin> set new" "Print DemoFailures \<notin> set new"
    by (elim exE conjE) simp
  have w: "\<forall>h. returned (answer w h (construct_call a))"
    "\<forall>h. answer w h Initialize = Returns True"
    "\<forall>h. returned (answer w h (IsComponentEnabled ''track''))"
    "\<forall>h. returned (answer w h HasGripper)"
    using assms(2) by (simp_all add: fails_at_deck_low_def construct_call_def)
  from demo have "\<forall>st. calls (trace st)
                 = [construct_call a, Initialize, IsComponentEnabled ''track'', HasGripper]
               \<longrightarrow> demo_plate_pickup w (opt_auto a) (custom_speeds_of m) st
                     = (Inr False, st\<lparr>trace := trace st @ new\<rparr>)"
    by simp
  from main_run [OF assms(1) md w this]
  obtain pre post where
    e: "events_of (main w a initial) = pre @ new @ Print DemoFailures # Call Disconnect # post"
    and pre: "calls pre = [construct_call a, Initialize, IsComponentEnabled ''track'', HasGripper]"
      "set pre \<subseteq> {Print (Header (opt_simulate a) (opt_auto a) d), Call (construct_call a),
         Call Initialize, Print InitOk, Call (IsComponentEnabled ''track''), Print TrackWarning,
         Call HasGripper, Print GripperWarning}"
    and post: "set post \<subseteq> {Print ControllerDisconnected}"
    by (elim exE conjE) simp
  show ?thesis
    using obs pre(1) quiet_prefix [OF pre(2)] quiet_suffix [OF post]
    by (simp add: Let_def e md movements_def calls_append planned_movements_def
        construct_call_def)
qed

theorem deck_low_failure_stops_the_run_witness:
  "valid_flags simulate_args \<and> fails_at_deck_low deck_low_double \<and>
   (let r = main deck_low_double simulate_args initial;
        m = fst (resolve_multiplier simulate_args) in
     movements (events_of r) =
       [MoveToNamedLocation ''robot_home'' (speed_of m 20), OpenGripper,
        MoveTrackToNamedLocation ''Local_1'' (speed_of m 150),
        MoveToNamedLocation ''deck_high'' (speed_of m 15),
        MoveToNamedLocation ''deck_low'' (speed_of m 8)]
     \<and> count_list (events_of r) (Print MovementCompleted) = 3
     \<and> count_list (events_of r) (Print MovementFailed) = 1
     \<and> Print DemoFailures \<in> set (events_of r)
     \<and> Print DemoSuccess \<notin> set (events_of r)
     \<and> count_list (calls (events_of r)) Disconnect = 1
     \<and> count_list (calls (events_of r)) StopMotion = 0)"
proof -
  have h1: "valid_flags simulate_args"
    by (simp add: valid_flags_def simulate_args_def)
  have h2: "fails_at_deck_low deck_low_double"
    by (simp add: fails_at_deck_low_def deck_low_double_def has_required_positions_def
        positions_of_def deck_positions_def)
  show ?thesis
    by (rule conjI [OF h1 conjI [OF h2 deck_low_failure_stops_the_run [OF h1 h2]]])
qed

subsection \<open>Claim C6: a missing required position\<close>

text \<open>
  C6. When \<open>robot_home\<close>, \<open>deck_high\<close> or \<open>deck_low\<close> is absent from the position table,
  the sequence requests no movement, whatever the operator and the controller do. When
  the run gets to the check (auto-confirm, or the operator acknowledges the start prompt),
  it returns False, its last output is the error naming a missing position, and beside
  the start prompt it has requested nothing: in particular not \<open>stop_motion\<close>.
\<close>

theorem missing_position_aborts_before_motion:
  assumes "\<not> has_required_positions w"
  shows "movements (new_events st (demo_plate_pickup w auto_confirm (custom_speeds_of m) st)) = []
    \<and> (auto_confirm \<or> (\<forall>h. returned (answer w h (Input start_prompt))) \<longrightarrow>
        (\<exists>p. p \<in> set required_positions \<and> p \<notin> set (positions_of w)
          \<and> (let r = demo_plate_pickup w auto_confirm (custom_speeds_of m) st in
               result_of r = Inr False
             \<and> calls (new_events st r) = (if auto_confirm then [] else [Input start_prompt])
             \<and> last (new_events st r) = Print (PositionNotFound p))))"
  using demo_missing_no_movement [OF assms] demo_missing_acknowledged [OF assms]
  by blast

theorem missing_position_aborts_before_motion_witness:
  "\<not> has_required_positions no_deck_low_double
   \<and> movements (new_events initial
        (demo_plate_pickup no_deck_low_double True (custom_speeds_of (Finite 1)) initial)) = []
   \<and> result_of (demo_plate_pickup no_deck_low_double True (custom_speeds_of (Finite 1)) initial)
        = Inr False
   \<and> calls (new_events initial
        (demo_plate_pickup no_deck_low_double True (custom_speeds_of (Finite 1)) initial)) = []
   \<and> last (new_events initial
        (demo_plate_pickup no_deck_low_double True (custom_speeds_of (Finite 1)) initial))
        = Print (PositionNotFound ''deck_low'')"
proof -
  have h: "\<not> has_required_positions no_deck_low_double"
    by (simp add: has_required_positions_def no_deck_low_double_def positions_of_def)
  have only: "p = ''deck_low''"
    if "p \<in> set required_positions" and "p \<notin> set (positions_of no_deck_low_double)" for p
    using that by (auto simp: required_positions_def no_deck_low_double_def positions_of_def)
  from missing_position_aborts_before_motion
    [OF h, of initial True "Finite 1"] h only
  show ?thesis by (auto simp: Let_def)
qed

subsection \<open>Claim C7: the runner reports the result of the action\<close>

text \<open>
  C7. For every step (any description, speed record and action): when the runner gets
  to run the action (auto-confirm, or the operator's Enter) and the action returns a
  boolean without raising, the runner returns that boolean. After a False it only prints
  the failure message: it does not request \<open>stop_motion\<close>. After a True it prints the
  confirmation and pauses for one second. Nothing the runner emits before the action is a
  \<open>stop_motion\<close> request either.
\<close>

theorem step_runner_reports_action_result:
  assumes "auto_confirm \<or> returned (answer w (trace st @ announcement d si) (Input continue_prompt))"
    and "movement_func (st\<lparr>trace := trace st @ runner_prelude d si auto_confirm\<rparr>) = (Inr b, st')"
  shows "move_with_confirmation w movement_func d auto_confirm si st =
           (Inr b, st'\<lparr>trace := trace st' @ (if b then [Print MovementCompleted, Sleep 1]
                                              else [Print MovementFailed])\<rparr>)
         \<and> Call StopMotion \<notin> set (runner_prelude d si auto_confirm)"
proof -
  have "Call StopMotion \<notin> set (runner_prelude d si auto_confirm)"
    by (simp add: runner_prelude_def announcement_def speed_lines_def split: option.split)
  moreover have "move_with_confirmation w movement_func d auto_confirm si st =
           (Inr b, st'\<lparr>trace := trace st' @ (if b then [Print MovementCompleted, Sleep 1]
                                              else [Print MovementFailed])\<rparr>)"
    using assms
    by (cases auto_confirm)
       (simp_all add: move_with_confirmation_def print_speed_info_run announcement_def
          confirm_def execute_def runner_prelude_def prog_defs case_returned)
  ultimately show ?thesis by simp
qed

theorem step_runner_reports_action_result_witness:
  "(True \<or> returned (answer succeeding_double
       (trace initial @ announcement ''Step 5: Closing gripper to pick up well plate'' None)
       (Input continue_prompt)))
   \<and> invoke succeeding_double CloseGripper
        (initial\<lparr>trace := trace initial
           @ runner_prelude ''Step 5: Closing gripper to pick up well plate'' None True\<rparr>)
      = (Inr True,
         initial\<lparr>trace := runner_prelude ''Step 5: Closing gripper to pick up well plate'' None True
                     @ [Call CloseGripper]\<rparr>)
   \<and> move_with_confirmation succeeding_double (invoke succeeding_double CloseGripper)
        ''Step 5: Closing gripper to pick up well plate'' True None initial
      = (Inr True,
         initial\<lparr>trace := runner_prelude ''Step 5: Closing gripper to pick up well plate'' None True
                     @ [Call CloseGripper, Print MovementCompleted, Sleep 1]\<rparr>)"
proof -
  let ?d = "''Step 5: Closing gripper to pick up well plate''"
  have h1: "True \<or> returned (answer succeeding_double
       (trace initial @ announcement ?d None) (Input continue_prompt))"
    by simp
  have h2: "invoke succeeding_double CloseGripper
        (initial\<lparr>trace := trace initial @ runner_prelude ?d None True\<rparr>)
      = (Inr True, initial\<lparr>trace := runner_prelude ?d None True @ [Call CloseGripper]\<rparr>)"
    by (simp add: invoke_def succeeding_double_def initial_def)
  from step_runner_reports_action_result
    [where auto_confirm = True and w = succeeding_double and st = initial and d = ?d
       and si = None and movement_func = "invoke succeeding_double CloseGripper"
       and b = True, OF h1 h2] h2
  show ?thesis by simp
qed

subsection \<open>Claim C8: conflicting flags\<close>

text \<open>
  C8. With both \<open>--simulate\<close> and \<open>--real\<close>, or both \<open>--slow\<close> and \<open>--fast\<close>, the
  program prints one usage error and leaves through \<open>sys.exit(1)\<close>; it has requested
  nothing from the outside, in particular it has not constructed a controller.
\<close>

theorem conflicting_flags_exit_before_construction:
  assumes "(opt_simulate a \<and> opt_real a) \<or> (opt_slow a \<and> opt_fast a)"
  shows "result_of (main w a initial) = Inl (SystemExit 1)
     \<and> events_of (main w a initial) \<in> {[Print BothModes], [Print NoMode], [Print BothSpeeds]}
     \<and> filter is_construct (calls (events_of (main w a initial))) = []"
  using assms by (auto simp: main_def initial_def result_of_def events_of_def prog_defs)

theorem conflicting_flags_exit_before_construction_witness:
  "((opt_simulate conflicting_args \<and> opt_real conflicting_args)
      \<or> (opt_slow conflicting_args \<and> opt_fast conflicting_args))
   \<and> result_of (main succeeding_double conflicting_args initial) = Inl (SystemExit 1)
   \<and> events_of (main succeeding_double conflicting_args initial) = [Print BothModes]"
proof -
  have h: "(opt_simulate conflicting_args \<and> opt_real conflicting_args)
      \<or> (opt_slow conflicting_args \<and> opt_fast conflicting_args)"
    by (simp add: conflicting_args_def)
  have e: "events_of (main succeeding_double conflicting_args initial) \<noteq> [Print NoMode]"
    "events_of (main succeeding_double conflicting_args initial) \<noteq> [Print BothSpeeds]"
    by (simp_all add: main_def conflicting_args_def initial_def events_of_def prog_defs)
  from conflicting_flags_exit_before_construction [OF h, of succeeding_double] h e
  show ?thesis by simp
qed

subsection \<open>Claim C9: at most one speed per step\<close>

text \<open>
  C9. Whatever the multiplier, every record of the table the sequence uses (the defaults,
  overridden by the scaled copy when there is one) has at most one of \<open>joint_speed\<close> and
  \<open>track_speed\<close>, and the record of the gripper-close step \<open>plate_pickup\<close> has neither.
\<close>

theorem at_most_one_speed_per_step:
  "list_all (\<lambda>(step, c). at_most_one_speed c) (effective_speeds (custom_speeds_of m))
   \<and> (\<exists>c. map_of (effective_speeds (custom_speeds_of m)) ''plate_pickup'' = Some c
          \<and> joint_speed c = None \<and> track_speed c = None)"
  by (simp add: effective_speeds_scaled table_defs at_most_one_speed_def)

theorem at_most_one_speed_per_step_witness:
  "list_all (\<lambda>(step, c). at_most_one_speed c) (effective_speeds (custom_speeds_of (Finite 2)))
   \<and> (\<exists>c. map_of (effective_speeds (custom_speeds_of (Finite 2))) ''plate_pickup'' = Some c
          \<and> joint_speed c = None \<and> track_speed c = None)"
  by (rule at_most_one_speed_per_step [of "Finite 2"])

subsection \<open>Claim C10: the action of step 1\<close>

text \<open>
  C10. In the action of step 1, \<open>open_gripper\<close> is requested exactly when the move to
  \<open>robot_home\<close> returned True, and when both requests return, the action's result is the
  result of the move alone. A run on which \<open>open_gripper\<close> returns False and every other
  request succeeds completes all seven steps and reports success.
\<close>

theorem step1_result_is_the_move_result:
  "(let r = move_home_and_open_gripper w speed st;
       moved = answer w (trace st) (MoveToNamedLocation ''robot_home'' speed);
       opened = answer w (trace st @ [Call (MoveToNamedLocation ''robot_home'' speed)]) OpenGripper
    in (OpenGripper \<in> set (calls (new_events st r)) \<longleftrightarrow> moved = Returns True)
      \<and> (returned moved \<and> returned opened \<longrightarrow> result_of r = Inr (returned_value moved)))
   \<and> (valid_flags a \<and> only_gripper_open_fails w \<longrightarrow>
        (let r = main w a initial in
           movements (events_of r) = concat (planned_movements (fst (resolve_multiplier a)))
         \<and> count_list (events_of r) (Print MovementCompleted) = 7
         \<and> count_list (events_of r) (Print MovementFailed) = 0
         \<and> Print DemoSuccess \<in> set (events_of r)))"
proof -
  have "let r = main w a initial in
           movements (events_of r) = concat (planned_movements (fst (resolve_multiplier a)))
         \<and> count_list (events_of r) (Print MovementCompleted) = 7
         \<and> count_list (events_of r) (Print MovementFailed) = 0
         \<and> Print DemoSuccess \<in> set (events_of r)"
    if "valid_flags a" and "only_gripper_open_fails w"
    using main_succeeds [OF that(1) only_gripper_open_fails_gripper [OF that(2)]]
    by (simp add: Let_def)
  with action_step1 [of w speed st] show ?thesis by blast
qed

theorem step1_result_is_the_move_result_witness:
  "returned (answer stuck_gripper_double (trace initial) (MoveToNamedLocation ''robot_home'' (IntV 20)))
   \<and> answer stuck_gripper_double (trace initial @ [Call (MoveToNamedLocation ''robot_home'' (IntV 20))])
        OpenGripper = Returns False
   \<and> result_of (move_home_and_open_gripper stuck_gripper_double (IntV 20) initial) = Inr True
   \<and> valid_flags simulate_args \<and> only_gripper_open_fails stuck_gripper_double
   \<and> (let r = main stuck_gripper_double simulate_args initial in
           movements (events_of r) = concat (planned_movements (fst (resolve_multiplier simulate_args)))
         \<and> count_list (events_of r) (Print MovementCompleted) = 7
         \<and> count_list (events_of r) (Print MovementFailed) = 0
         \<and> Print DemoSuccess \<in> set (events_of r))"
proof -
  have h: "returned (answer stuck_gripper_double (trace initial) (MoveToNamedLocation ''robot_home'' (IntV 20)))"
    "answer stuck_gripper_double (trace initial @ [Call (MoveToNamedLocation ''robot_home'' (IntV 20))])
        OpenGripper = Returns False"
    "returned_value (answer stuck_gripper_double (trace initial) (MoveToNamedLocation ''robot_home'' (IntV 20)))"
    "valid_flags simulate_args" "only_gripper_open_fails stuck_gripper_double"
    by (simp_all add: stuck_gripper_double_def valid_flags_def simulate_args_def
        only_gripper_open_fails_def has_required_positions_def positions_of_def deck_positions_def)
  from step1_result_is_the_move_result [of stuck_gripper_double "IntV 20" initial simulate_args] h
  show ?thesis by (simp add: Let_def)
qed

end
